theory Spec2Isabelle
  imports Complex_Main
begin

section \<open>XML annotations to YOLO label files: the converter of zhuanhuan\_optimized.py\<close>

text \<open>
  The development follows \<^verbatim>\<open>XMLtoYOLOConverter\<close>. Exceptions are values of
  \<open>py_error\<close>. Python's floats are binary64 numbers. The converter is written
  over a type parameter \<open>'f\<close> for the floats, with the built-in operations it
  applies to them as the fields of a record, so that what it does with its
  input is stated for whatever these operations compute. What they compute in
  Python, round to nearest with ties to even, the infinities and \<^verbatim>\<open>nan\<close>, is the
  record \<open>binary64\<close> below. Printing to the console and the progress bar are
  left out, and so are failures of the operating system on opening or writing
  the output file.
\<close>

subsection \<open>Exceptions\<close>

datatype py_error = AttributeError | ValueError | TypeError | ZeroDivisionError | OverflowError

subsection \<open>The element tree\<close>

text \<open>
  What \<^verbatim>\<open>ET.parse(xml_file).getroot()\<close> returns: an element has a tag, a text
  (\<^verbatim>\<open>None\<close> for an element without character data) and its child elements in
  document order. \<^verbatim>\<open>find\<close> with a plain tag gives the first direct child with
  that tag; \<^verbatim>\<open>iter\<close> gives the element itself and every element below it with that
  tag, in document order.
\<close>

datatype element = Element (tag: string) (text_of: "string option") (children: "element list")

definition find_elem :: "element \<Rightarrow> string \<Rightarrow> element option" where
  "find_elem e t = List.find (\<lambda>c. tag c = t) (children e)"

fun iter :: "element \<Rightarrow> string \<Rightarrow> element list" where
  "iter (Element tg tx cs) t =
     (if tg = t then [Element tg tx cs] else []) @ concat (map (\<lambda>c. iter c t) cs)"

text \<open>
  \<^verbatim>\<open>e.find(t).text\<close>: reading \<^verbatim>\<open>.text\<close> of the \<^verbatim>\<open>None\<close> that a failed
  \<^verbatim>\<open>find\<close> returns raises \<^verbatim>\<open>AttributeError\<close>.
\<close>

definition find_text :: "element \<Rightarrow> string \<Rightarrow> py_error + string option" where
  "find_text e t = (case find_elem e t of None \<Rightarrow> Inl AttributeError | Some c \<Rightarrow> Inr (text_of c))"

subsection \<open>The built-in operations on numbers\<close>

text \<open>
  The operations on floats that the converter uses. \<open>float_of_int\<close> is the
  conversion of an integer operand to a float, \<open>None\<close> where Python raises
  \<^verbatim>\<open>OverflowError\<close> (an integer too large for a float). \<open>float_one\<close> and
  \<open>float_two\<close> are the literals \<^verbatim>\<open>1.0\<close> and \<^verbatim>\<open>2.0\<close>; \<open>float_add\<close>,
  \<open>float_sub\<close>, \<open>float_mul\<close> and \<open>float_div\<close> are \<^verbatim>\<open>+\<close>, \<^verbatim>\<open>-\<close>, \<^verbatim>\<open>*\<close> and
  \<^verbatim>\<open>/\<close> on two floats (\<open>float_div\<close> for a divisor that is not zero). \<open>classify\<close>
  says what a float is: \<^verbatim>\<open>nan\<close>, an infinity with its sign, or a finite number
  with its sign bit and its magnitude (the flag is \<open>True\<close> for the negative
  sign, so minus zero is \<open>Finite True 0\<close>).
\<close>

datatype float_class = NaN | Infinite bool | Finite bool real

record 'f float_ops =
  float_of_int :: "int \<Rightarrow> 'f option"
  float_one :: 'f
  float_two :: 'f
  float_add :: "'f \<Rightarrow> 'f \<Rightarrow> 'f"
  float_sub :: "'f \<Rightarrow> 'f \<Rightarrow> 'f"
  float_mul :: "'f \<Rightarrow> 'f \<Rightarrow> 'f"
  float_div :: "'f \<Rightarrow> 'f \<Rightarrow> 'f"
  classify :: "'f \<Rightarrow> float_class"

text \<open>
  The built-ins that the converter calls: \<open>int_of_str\<close> and \<open>float_of_str\<close> are
  \<^verbatim>\<open>int\<close> and \<^verbatim>\<open>float\<close> on a string, the number read, or \<open>None\<close> where Python
  raises \<^verbatim>\<open>ValueError\<close>; \<open>floats\<close> are the operations on floats.
\<close>

record 'f builtins =
  int_of_str :: "string \<Rightarrow> int option"
  float_of_str :: "string \<Rightarrow> 'f option"
  floats :: "'f float_ops"

text \<open>
  \<^verbatim>\<open>int(t)\<close> and \<^verbatim>\<open>float(t)\<close> for the text \<open>t\<close> of an element: applied to
  \<^verbatim>\<open>None\<close> (an element without text) both raise \<^verbatim>\<open>TypeError\<close>.
\<close>

definition py_int :: "'f builtins \<Rightarrow> string option \<Rightarrow> py_error + int" where
  "py_int cv t =
     (case t of
        None \<Rightarrow> Inl TypeError
      | Some s \<Rightarrow> (case int_of_str cv s of None \<Rightarrow> Inl ValueError | Some n \<Rightarrow> Inr n))"

definition py_float :: "'f builtins \<Rightarrow> string option \<Rightarrow> py_error + 'f" where
  "py_float cv t =
     (case t of
        None \<Rightarrow> Inl TypeError
      | Some s \<Rightarrow> (case float_of_str cv s of None \<Rightarrow> Inl ValueError | Some r \<Rightarrow> Inr r))"

text \<open>
  \<^verbatim>\<open>a / n\<close> for a float \<open>a\<close> and an integer \<open>n\<close>: Python converts \<open>n\<close> to a
  float, which raises \<^verbatim>\<open>OverflowError\<close> when \<open>n\<close> is too large, then raises
  \<^verbatim>\<open>ZeroDivisionError\<close> when the divisor is zero, and divides otherwise. An
  integer converts to the float zero exactly when it is 0, so the test is made
  on \<open>n\<close>.
\<close>

definition py_truediv :: "'f float_ops \<Rightarrow> 'f \<Rightarrow> int \<Rightarrow> py_error + 'f" where
  "py_truediv ops a n =
     (case float_of_int ops n of
        None \<Rightarrow> Inl OverflowError
      | Some b \<Rightarrow> if n = 0 then Inl ZeroDivisionError else Inr (float_div ops a b))"

subsection \<open>convert\_coordinates\<close>

text \<open>
  The width is divided first, so a width that raises does so before the height
  is looked at. The sums, differences and products of floats do not raise, and
  neither does the division by the literal \<^verbatim>\<open>2.0\<close>. The values are multiplied
  by the reciprocals \<open>dw\<close> and \<open>dh\<close>, as the source has it.
\<close>

definition convert_coordinates ::
  "'f float_ops \<Rightarrow> int \<times> int \<Rightarrow> 'f \<times> 'f \<times> 'f \<times> 'f \<Rightarrow> py_error + ('f \<times> 'f \<times> 'f \<times> 'f)" where
  "convert_coordinates ops image_size box =
     (case py_truediv ops (float_one ops) (fst image_size) of
        Inl e \<Rightarrow> Inl e
      | Inr dw \<Rightarrow>
          (case py_truediv ops (float_one ops) (snd image_size) of
             Inl e \<Rightarrow> Inl e
           | Inr dh \<Rightarrow>
               (case box of (b0, b1, b2, b3) \<Rightarrow>
                  let x = float_div ops (float_add ops b0 b1) (float_two ops);
                      y = float_div ops (float_add ops b2 b3) (float_two ops);
                      w = float_sub ops b1 b0;
                      h = float_sub ops b3 b2
                  in Inr (float_mul ops x dw, float_mul ops y dh,
                          float_mul ops w dw, float_mul ops h dh))))"

subsection \<open>Formatting\<close>

text \<open>
  \<^verbatim>\<open>f"{cls_id}"\<close> is the decimal numeral of the index. \<^verbatim>\<open>f"{a:.6f}"\<close> prints
  \<^verbatim>\<open>nan\<close> for a nan, \<^verbatim>\<open>inf\<close> or \<^verbatim>\<open>-inf\<close> for an infinity, and for a finite
  float a minus sign when the sign bit is set, then the magnitude rounded to six
  decimals (ties to even): the integer part in decimal, a point and six digits.
  The line written for an object is the numeral of the index, a space, the four
  values so printed and joined by single spaces, and a newline.
\<close>

definition digit_char :: "nat \<Rightarrow> char" where
  "digit_char d = ''0123456789'' ! d"

fun str_of_nat :: "nat \<Rightarrow> string" where
  "str_of_nat n = (if n < 10 then [digit_char n] else str_of_nat (n div 10) @ [digit_char (n mod 10)])"

declare str_of_nat.simps [simp del]

definition round_half_even :: "real \<Rightarrow> nat" where
  "round_half_even r =
     (let f = \<lfloor>r\<rfloor>; d = r - of_int f
      in nat (if d < 1 / 2 then f else if 1 / 2 < d then f + 1 else if even f then f else f + 1))"

definition fmt6 :: "real \<Rightarrow> string" where
  "fmt6 m =
     (let n = round_half_even (m * 1000000);
          frac = str_of_nat (n mod 1000000)
      in str_of_nat (n div 1000000) @ [CHR ''.''] @ replicate (6 - length frac) CHR ''0'' @ frac)"

definition format_6f :: "'f float_ops \<Rightarrow> 'f \<Rightarrow> string" where
  "format_6f ops a =
     (case classify ops a of
        NaN \<Rightarrow> ''nan''
      | Infinite negative \<Rightarrow> (if negative then ''-inf'' else ''inf'')
      | Finite negative m \<Rightarrow> (if negative then [CHR ''-''] else []) @ fmt6 m)"

text \<open>
  What "six decimal places" says of a printed number: it ends in a point followed
  by six digits, with at least one character before the point.
\<close>

definition is_digit :: "char \<Rightarrow> bool" where
  "is_digit c = ((of_char CHR ''0'' :: nat) \<le> of_char c \<and> (of_char c :: nat) \<le> of_char CHR ''9'')"

definition six_decimals :: "string \<Rightarrow> bool" where
  "six_decimals s =
     (8 \<le> length s \<and> s ! (length s - 7) = CHR ''.'' \<and> list_all is_digit (drop (length s - 6) s))"

fun join :: "string \<Rightarrow> string list \<Rightarrow> string" where
  "join sep [] = []"
| "join sep [x] = x"
| "join sep (x # y # ys) = x @ sep @ join sep (y # ys)"

definition yolo_line :: "'f float_ops \<Rightarrow> nat \<Rightarrow> 'f \<times> 'f \<times> 'f \<times> 'f \<Rightarrow> string" where
  "yolo_line ops cls_id bb =
     (case bb of (x, y, w, h) \<Rightarrow>
        str_of_nat cls_id @ '' '' @ join '' '' (map (format_6f ops) [x, y, w, h]) @ [CHR 0x0A])"

subsection \<open>One object record\<close>

text \<open>\<^verbatim>\<open>classes.index(cls)\<close>: the first position of the name, \<^verbatim>\<open>ValueError\<close> if absent.\<close>

fun list_index :: "'a list \<Rightarrow> 'a \<Rightarrow> nat option" where
  "list_index [] x = None"
| "list_index (y # ys) x = (if y = x then Some 0 else map_option Suc (list_index ys x))"

text \<open>
  The four corner reads of the inner \<^verbatim>\<open>try\<close>, in the order of the source; the first
  one that raises decides the exception.
\<close>

definition corner :: "'f builtins \<Rightarrow> element \<Rightarrow> string \<Rightarrow> py_error + 'f" where
  "corner cv xmlbox t = (case find_text xmlbox t of Inl e \<Rightarrow> Inl e | Inr tx \<Rightarrow> py_float cv tx)"

definition read_box :: "'f builtins \<Rightarrow> element \<Rightarrow> py_error + ('f \<times> 'f \<times> 'f \<times> 'f)" where
  "read_box cv xmlbox =
     (case corner cv xmlbox ''xmin'' of Inl e \<Rightarrow> Inl e | Inr xmin \<Rightarrow>
      (case corner cv xmlbox ''xmax'' of Inl e \<Rightarrow> Inl e | Inr xmax \<Rightarrow>
       (case corner cv xmlbox ''ymin'' of Inl e \<Rightarrow> Inl e | Inr ymin \<Rightarrow>
        (case corner cv xmlbox ''ymax'' of Inl e \<Rightarrow> Inl e | Inr ymax \<Rightarrow>
           Inr (xmin, xmax, ymin, ymax)))))"

text \<open>
  \<^verbatim>\<open>difficult is not None and int(difficult.text) == 1\<close>: whether the object is
  skipped as difficult; the conversion of the flag's text may raise.
\<close>

definition is_difficult :: "'f builtins \<Rightarrow> element \<Rightarrow> py_error + bool" where
  "is_difficult cv obj =
     (case find_elem obj ''difficult'' of
        None \<Rightarrow> Inr False
      | Some d \<Rightarrow> (case py_int cv (text_of d) of Inl e \<Rightarrow> Inl e | Inr n \<Rightarrow> Inr (n = 1)))"

text \<open>
  The body of the loop over the object records: the object is skipped
  (\<^verbatim>\<open>continue\<close>), a line is written, or an exception leaves the loop. A name
  without text is \<^verbatim>\<open>None\<close>, which is not in the class list. The inner
  \<^verbatim>\<open>try\<close> catches \<^verbatim>\<open>AttributeError\<close> and \<^verbatim>\<open>ValueError\<close> only.
\<close>

datatype outcome = Skip | Emit string | Raise py_error

definition process_object ::
  "'f builtins \<Rightarrow> string list \<Rightarrow> int \<times> int \<Rightarrow> element \<Rightarrow> outcome" where
  "process_object cv classes image_size obj =
     (case is_difficult cv obj of
        Inl e \<Rightarrow> Raise e
      | Inr True \<Rightarrow> Skip
      | Inr False \<Rightarrow>
          (case find_text obj ''name'' of
             Inl e \<Rightarrow> Raise e
           | Inr None \<Rightarrow> Skip
           | Inr (Some cls) \<Rightarrow>
               if cls \<notin> set classes then Skip
               else
                 (case list_index classes cls of
                    None \<Rightarrow> Raise ValueError
                  | Some cls_id \<Rightarrow>
                      (case find_elem obj ''bndbox'' of
                         None \<Rightarrow> Skip
                       | Some xmlbox \<Rightarrow>
                           (case read_box cv xmlbox of
                              Inl e \<Rightarrow> if e = AttributeError \<or> e = ValueError then Skip else Raise e
                            | Inr box \<Rightarrow>
                                (case convert_coordinates (floats cv) image_size box of
                                   Inl e \<Rightarrow> Raise e
                                 | Inr bb \<Rightarrow> Emit (yolo_line (floats cv) cls_id bb)))))))"

text \<open>
  The loop, with the text written to the output file so far; an exception ends
  it and keeps what was written.
\<close>

fun write_objects ::
  "'f builtins \<Rightarrow> string list \<Rightarrow> int \<times> int \<Rightarrow> element list \<Rightarrow> string \<Rightarrow> py_error option \<times> string" where
  "write_objects cv classes image_size [] out = (None, out)"
| "write_objects cv classes image_size (obj # objs) out =
     (case process_object cv classes image_size obj of
        Skip \<Rightarrow> write_objects cv classes image_size objs out
      | Emit l \<Rightarrow> write_objects cv classes image_size objs (out @ l)
      | Raise e \<Rightarrow> (Some e, out))"

subsection \<open>convert\_annotation\<close>

text \<open>
  Paths are POSIX paths. \<^verbatim>\<open>os.path.basename\<close> is what follows the last slash,
  \<^verbatim>\<open>[:-4]\<close> drops the last four characters, and \<^verbatim>\<open>os.path.join\<close> puts a slash
  between its arguments unless the first is empty or ends in one (the second replaces
  the first when it is absolute).
\<close>

definition basename :: "string \<Rightarrow> string" where
  "basename p = rev (takeWhile (\<lambda>c. c \<noteq> CHR ''/'') (rev p))"

definition path_join :: "string \<Rightarrow> string \<Rightarrow> string" where
  "path_join a b =
     (if b \<noteq> [] \<and> hd b = CHR ''/'' then b
      else if a = [] \<or> last a = CHR ''/'' then a @ b
      else a @ ''/'' @ b)"

definition output_path :: "string \<Rightarrow> string \<Rightarrow> string" where
  "output_path output_dir xml_file =
     (let file_name = take (length (basename xml_file) - 4) (basename xml_file)
      in path_join output_dir (file_name @ ''.txt''))"

text \<open>
  The files of the output directory are a map from paths to contents. An input
  file is its path with what \<^verbatim>\<open>ET.parse\<close> makes of it: the root element, or
  \<open>None\<close> when parsing raises. Opening the output file for writing creates it empty
  (or empties it); the lines written before an exception stay in it, since leaving
  the \<^verbatim>\<open>with\<close> block closes the file. Every exception is caught and turned into
  \<^verbatim>\<open>False\<close>.
\<close>

type_synonym files = "string \<rightharpoonup> string"

text \<open>
  The two reads \<^verbatim>\<open>int(size.find('width').text)\<close> and
  \<^verbatim>\<open>int(size.find('height').text)\<close>, width first.
\<close>

definition read_size :: "'f builtins \<Rightarrow> element \<Rightarrow> py_error + (int \<times> int)" where
  "read_size cv size_el =
     (case find_text size_el ''width'' of Inl e \<Rightarrow> Inl e | Inr tw \<Rightarrow>
      (case py_int cv tw of Inl e \<Rightarrow> Inl e | Inr width \<Rightarrow>
       (case find_text size_el ''height'' of Inl e \<Rightarrow> Inl e | Inr th \<Rightarrow>
        (case py_int cv th of Inl e \<Rightarrow> Inl e | Inr height \<Rightarrow> Inr (width, height)))))"

definition convert_annotation ::
  "'f builtins \<Rightarrow> string \<Rightarrow> string list \<Rightarrow> string \<times> element option \<Rightarrow> files \<Rightarrow> bool \<times> files" where
  "convert_annotation cv output_dir classes xml_file fs =
     (case snd xml_file of
        None \<Rightarrow> (False, fs)
      | Some root_el \<Rightarrow>
          let output_file = output_path output_dir (fst xml_file);
              fs1 = fs(output_file \<mapsto> [])
          in (case find_elem root_el ''size'' of
                None \<Rightarrow> (False, fs1)
              | Some size_el \<Rightarrow>
                  (case read_size cv size_el of
                     Inl e \<Rightarrow> (False, fs1)
                   | Inr image_size \<Rightarrow>
                       (case write_objects cv classes image_size (iter root_el ''object'') [] of
                          (None, out) \<Rightarrow> (True, fs1(output_file \<mapsto> out))
                        | (Some e, out) \<Rightarrow> (False, fs1(output_file \<mapsto> out))))))"

subsection \<open>convert\_all\<close>



subsection \<open>The floats of Python\<close>

text \<open>
  A float of Python is a binary64 number: \<^verbatim>\<open>nan\<close>, an infinity, or a sign with a
  magnitude that is zero or \<open>n * 2 ^ k\<close> for a natural number \<open>n\<close> below \<open>2 ^ 53\<close>
  and an exponent \<open>k\<close> from -1074 to 971; it is its own \<open>float_class\<close>. An
  operation gives the exact result rounded to the nearest such number, ties to
  the even \<open>n\<close>: \<open>b64_round\<close> rounds a magnitude in steps of \<open>2 ^ (e - 52)\<close>,
  where \<open>2 ^ e\<close> is the power of two at or below the magnitude and at least
  \<open>2 ^ - 1022\<close> (below that the numbers are subnormal, in steps of
  \<open>2 ^ - 1074\<close>), and a magnitude that rounds to \<open>2 ^ 1024\<close> or more overflows to
  an infinity. The sign of a result that is zero and the results on infinities
  and \<^verbatim>\<open>nan\<close> are those of IEEE 754.
\<close>

definition pow2 :: "int \<Rightarrow> real" where
  "pow2 k = (if 0 \<le> k then 2 ^ nat k else 1 / 2 ^ nat (- k))"

definition b64_exponent :: "real \<Rightarrow> int" where
  "b64_exponent m = max \<lfloor>log 2 m\<rfloor> (- 1022)"

definition b64_round :: "real \<Rightarrow> real" where
  "b64_round m =
     (if m = 0 then 0
      else let q = pow2 (b64_exponent m - 52)
           in real (round_half_even (m / q)) * q)"

definition b64_of_real :: "bool \<Rightarrow> real \<Rightarrow> float_class" where
  "b64_of_real negative m =
     (let r = b64_round m in if 2 ^ 1024 \<le> r then Infinite negative else Finite negative r)"

fun b64_neg :: "float_class \<Rightarrow> float_class" where
  "b64_neg NaN = NaN"
| "b64_neg (Infinite s) = Infinite (\<not> s)"
| "b64_neg (Finite s m) = Finite (\<not> s) m"

text \<open>
  A sum that is exactly zero is minus zero only when both operands are minus
  zero; the difference is the sum with the negated operand.
\<close>

fun b64_add :: "float_class \<Rightarrow> float_class \<Rightarrow> float_class" where
  "b64_add NaN b = NaN"
| "b64_add (Infinite s) NaN = NaN"
| "b64_add (Infinite s) (Infinite t) = (if s = t then Infinite s else NaN)"
| "b64_add (Infinite s) (Finite t n) = Infinite s"
| "b64_add (Finite s m) NaN = NaN"
| "b64_add (Finite s m) (Infinite t) = Infinite t"
| "b64_add (Finite s m) (Finite t n) =
     (let r = (if s then - m else m) + (if t then - n else n)
      in if r = 0 then Finite (s \<and> t) 0 else b64_of_real (r < 0) \<bar>r\<bar>)"

definition b64_sub :: "float_class \<Rightarrow> float_class \<Rightarrow> float_class" where
  "b64_sub a b = b64_add a (b64_neg b)"

fun b64_mul :: "float_class \<Rightarrow> float_class \<Rightarrow> float_class" where
  "b64_mul NaN b = NaN"
| "b64_mul (Infinite s) NaN = NaN"
| "b64_mul (Infinite s) (Infinite t) = Infinite (s \<noteq> t)"
| "b64_mul (Infinite s) (Finite t n) = (if n = 0 then NaN else Infinite (s \<noteq> t))"
| "b64_mul (Finite s m) NaN = NaN"
| "b64_mul (Finite s m) (Infinite t) = (if m = 0 then NaN else Infinite (s \<noteq> t))"
| "b64_mul (Finite s m) (Finite t n) = b64_of_real (s \<noteq> t) (m * n)"

text \<open>The quotient, for a divisor that is not zero (Python raises on a zero divisor).\<close>

fun b64_div :: "float_class \<Rightarrow> float_class \<Rightarrow> float_class" where
  "b64_div NaN b = NaN"
| "b64_div (Infinite s) NaN = NaN"
| "b64_div (Infinite s) (Infinite t) = NaN"
| "b64_div (Infinite s) (Finite t n) = Infinite (s \<noteq> t)"
| "b64_div (Finite s m) NaN = NaN"
| "b64_div (Finite s m) (Infinite t) = Finite (s \<noteq> t) 0"
| "b64_div (Finite s m) (Finite t n) = b64_of_real (s \<noteq> t) (m / n)"

text \<open>
  An integer converts to the nearest float; Python raises \<^verbatim>\<open>OverflowError\<close> when
  that would be an infinity.
\<close>

definition b64_of_int :: "int \<Rightarrow> float_class option" where
  "b64_of_int n =
     (case b64_of_real (n < 0) \<bar>of_int n\<bar> of
        Infinite s \<Rightarrow> None
      | a \<Rightarrow> Some a)"

definition binary64 :: "float_class float_ops" where
  "binary64 =
     \<lparr> float_of_int = b64_of_int,
       float_one = Finite False 1,
       float_two = Finite False 2,
       float_add = b64_add,
       float_sub = b64_sub,
       float_mul = b64_mul,
       float_div = b64_div,
       classify = (\<lambda>a. a) \<rparr>"

text \<open>
  The comparisons of Python on floats: \<open>b64_between lo hi a\<close> is
  \<^verbatim>\<open>lo <= a <= hi\<close> for a float \<open>a\<close> and two numbers, \<open>b64_le a b\<close> is
  \<^verbatim>\<open>a <= b\<close> for two floats; a comparison with \<^verbatim>\<open>nan\<close> is false. \<open>is_b64\<close>
  says that a value of \<open>float_class\<close> is a float: a finite one has a magnitude
  that rounding leaves as it is.
\<close>

definition b64_between :: "real \<Rightarrow> real \<Rightarrow> float_class \<Rightarrow> bool" where
  "b64_between lo hi a =
     (case a of
        Finite s m \<Rightarrow> lo \<le> (if s then - m else m) \<and> (if s then - m else m) \<le> hi
      | _ \<Rightarrow> False)"

fun b64_le :: "float_class \<Rightarrow> float_class \<Rightarrow> bool" where
  "b64_le NaN b = False"
| "b64_le (Infinite s) NaN = False"
| "b64_le (Infinite s) (Infinite t) = (s \<or> \<not> t)"
| "b64_le (Infinite s) (Finite t n) = s"
| "b64_le (Finite s m) NaN = False"
| "b64_le (Finite s m) (Infinite t) = (\<not> t)"
| "b64_le (Finite s m) (Finite t n) = ((if s then - m else m) \<le> (if t then - n else n))"

definition is_b64 :: "float_class \<Rightarrow> bool" where
  "is_b64 a =
     (case a of
        Finite s m \<Rightarrow> 0 \<le> m \<and> m < 2 ^ 1024 \<and> b64_round m = m
      | _ \<Rightarrow> True)"

text \<open>A finite float that is zero or positive, with a magnitude of at most \<open>B\<close>.\<close>

definition b64_upto :: "real \<Rightarrow> float_class \<Rightarrow> bool" where
  "b64_upto B a = (\<exists>s m. a = Finite s m \<and> 0 \<le> m \<and> m \<le> B \<and> (m = 0 \<or> s = False))"

subsection \<open>Built-ins to evaluate the model with\<close>

text \<open>
  To run the model on an annotation the readers of numbers must be given too.
  \<open>example_builtins\<close> has the operations of binary64 and reads plain digit
  strings (\<^verbatim>\<open>int("48") = 48\<close>, and \<^verbatim>\<open>float("48") = 48.0\<close>, the float nearest to
  the number) and the string \<^verbatim>\<open>nan\<close> as a float. It rejects every other string,
  also those that Python reads (a sign, spaces, a decimal point, an exponent,
  \<^verbatim>\<open>inf\<close>): it is Python on the annotations evaluated below, whose strings are
  digit strings and \<^verbatim>\<open>nan\<close>, and no theorem stated for all inputs refers to it.
\<close>

definition digit_val :: "char \<Rightarrow> nat option" where
  "digit_val c = (if is_digit c then Some (of_char c - of_char CHR ''0'') else None)"

fun digits_val :: "string \<Rightarrow> nat \<Rightarrow> nat option" where
  "digits_val [] acc = Some acc"
| "digits_val (c # cs) acc =
     (case digit_val c of None \<Rightarrow> None | Some d \<Rightarrow> digits_val cs (10 * acc + d))"

definition dec_literal :: "string \<Rightarrow> nat option" where
  "dec_literal s = (if s = [] then None else digits_val s 0)"

definition example_builtins :: "float_class builtins" where
  "example_builtins =
     \<lparr> int_of_str = (\<lambda>s. map_option int (dec_literal s)),
       float_of_str =
         (\<lambda>s. if s = ''nan'' then Some NaN
              else map_option (\<lambda>n. b64_of_real False (real n)) (dec_literal s)),
       floats = binary64 \<rparr>"

subsection \<open>An annotation to evaluate the model on\<close>

text \<open>
  An image of 128 by 256 pixels with the box from (16, 64) to (48, 192), the
  class list \<^verbatim>\<open>battery,drug\<close>, and variants of the object record: flagged
  difficult, with a corner that reads as \<^verbatim>\<open>nan\<close>, of a class outside the
  list (once with a flag that is no number), without a name. \<open>no_files\<close> is the
  empty output directory.
\<close>

definition ex_classes :: "string list" where
  "ex_classes = [''battery'', ''drug'']"

definition ex_size :: element where
  "ex_size = Element ''size'' None
     [Element ''width'' (Some ''128'') [], Element ''height'' (Some ''256'') []]"

definition ex_bndbox :: element where
  "ex_bndbox = Element ''bndbox'' None
     [Element ''xmin'' (Some ''16'') [], Element ''ymin'' (Some ''64'') [],
      Element ''xmax'' (Some ''48'') [], Element ''ymax'' (Some ''192'') []]"

definition ex_object :: element where
  "ex_object = Element ''object'' None
     [Element ''name'' (Some ''drug'') [], Element ''difficult'' (Some ''0'') [], ex_bndbox]"

definition ex_nan_bndbox :: element where
  "ex_nan_bndbox = Element ''bndbox'' None
     [Element ''xmin'' (Some ''nan'') [], Element ''ymin'' (Some ''64'') [],
      Element ''xmax'' (Some ''48'') [], Element ''ymax'' (Some ''192'') []]"

definition ex_nan_object :: element where
  "ex_nan_object = Element ''object'' None
     [Element ''name'' (Some ''drug'') [], Element ''difficult'' (Some ''0'') [], ex_nan_bndbox]"

definition ex_difficult :: element where
  "ex_difficult = Element ''object'' None
     [Element ''name'' (Some ''drug'') [], Element ''difficult'' (Some ''1'') [], ex_bndbox]"





definition ex_zero_size :: element where
  "ex_zero_size = Element ''size'' None
     [Element ''width'' (Some ''0'') [], Element ''height'' (Some ''0'') []]"

definition ex_root :: "element list \<Rightarrow> element" where
  "ex_root objs = Element ''annotation'' None (ex_size # objs)"

definition ex_zero_root :: "element list \<Rightarrow> element" where
  "ex_zero_root objs = Element ''annotation'' None (ex_zero_size # objs)"

definition ex_no_size_root :: element where
  "ex_no_size_root = Element ''annotation'' None [ex_object]"

definition no_files :: files where
  "no_files = Map.empty"

section \<open>Numerals, printed floats and positions in the class list\<close>

lemma digit_char_is_digit: "d < 10 \<Longrightarrow> is_digit (digit_char d)"
proof -
  have "list_all is_digit ''0123456789''" by (simp add: is_digit_def)
  then show "d < 10 \<Longrightarrow> is_digit (digit_char d)"
    unfolding digit_char_def list_all_length by simp
qed

lemma str_of_nat_small: "n < 10 \<Longrightarrow> str_of_nat n = [digit_char n]"
  by (subst str_of_nat.simps) simp

lemma str_of_nat_big:
  "10 \<le> n \<Longrightarrow> str_of_nat n = str_of_nat (n div 10) @ [digit_char (n mod 10)]"
  by (subst str_of_nat.simps) simp

lemma str_of_nat_digits: "list_all is_digit (str_of_nat n)"
proof (induction n rule: str_of_nat.induct)
  case (1 n)
  show ?case
  proof (cases "n < 10")
    case True
    then show ?thesis by (subst str_of_nat.simps) (simp add: digit_char_is_digit)
  next
    case False
    have "list_all is_digit (str_of_nat (n div 10))" using 1 [OF False] .
    moreover have "is_digit (digit_char (n mod 10))" by (rule digit_char_is_digit) simp
    ultimately show ?thesis using False by (subst str_of_nat.simps) simp
  qed
qed

lemma str_of_nat_length: "0 < k \<Longrightarrow> n < 10 ^ k \<Longrightarrow> length (str_of_nat n) \<le> k"
proof (induction n arbitrary: k rule: str_of_nat.induct)
  case (1 n)
  show ?case
  proof (cases "n < 10")
    case True
    then show ?thesis using 1(2) by (subst str_of_nat.simps) simp
  next
    case False
    obtain j where k: "k = Suc j" using 1(2) by (cases k) auto
    have j0: "0 < j" using False 1(3) k by (cases j) auto
    have "n < 10 * 10 ^ j" using 1(3) k by simp
    then have "n div 10 < 10 ^ j" by (simp add: less_mult_imp_div_less mult.commute)
    then have "length (str_of_nat (n div 10)) \<le> j" using 1(1) [OF False j0] by simp
    then show ?thesis using False k by (subst str_of_nat.simps) simp
  qed
qed

lemma str_of_nat_nonempty: "str_of_nat n \<noteq> []"
  by (subst str_of_nat.simps) simp

lemma six_decimals_shape:
  assumes "pre \<noteq> []" and "length fp = 6" and "list_all is_digit fp"
  shows "six_decimals (pre @ [CHR ''.''] @ fp)"
proof -
  have len: "length (pre @ [CHR ''.''] @ fp) = length pre + 7" using assms by simp
  have "8 \<le> length (pre @ [CHR ''.''] @ fp)" using assms len by (cases pre) auto
  moreover have "(pre @ [CHR ''.''] @ fp) ! (length (pre @ [CHR ''.''] @ fp) - 7) = CHR ''.''"
    unfolding len by (simp add: nth_append)
  moreover have "drop (length (pre @ [CHR ''.''] @ fp) - 6) (pre @ [CHR ''.''] @ fp) = fp"
    unfolding len by simp
  ultimately show ?thesis using assms unfolding six_decimals_def by simp
qed

lemma fmt6_six_decimals: "six_decimals (sign @ fmt6 m)"
proof -
  define n where "n = round_half_even (m * 1000000)"
  define frac where "frac = str_of_nat (n mod 1000000)"
  define fp where "fp = replicate (6 - length frac) CHR ''0'' @ frac"
  define pre where "pre = sign @ str_of_nat (n div 1000000)"
  have "n mod 1000000 < 10 ^ 6" by simp
  then have "length frac \<le> 6" unfolding frac_def by (intro str_of_nat_length) simp_all
  then have l: "length fp = 6" unfolding fp_def by simp
  have z: "is_digit CHR ''0''" by (simp add: is_digit_def)
  have d: "list_all is_digit fp"
    unfolding fp_def frac_def using str_of_nat_digits [of "n mod 1000000"] z
    by (auto simp: list_all_iff)
  have p: "pre \<noteq> []" unfolding pre_def using str_of_nat_nonempty by simp
  have "sign @ fmt6 m = pre @ [CHR ''.''] @ fp"
    unfolding fmt6_def pre_def fp_def frac_def n_def by (simp add: Let_def)
  then show ?thesis using six_decimals_shape [OF p l d] by simp
qed

lemma not_six_decimals_nan: "\<not> six_decimals ''nan''"
  by (simp add: six_decimals_def)

lemma format_6f_shape:
  "(case classify (floats cv) a of
      NaN \<Rightarrow> format_6f (floats cv) a = ''nan''
    | Infinite negative \<Rightarrow> format_6f (floats cv) a = (if negative then ''-inf'' else ''inf'')
    | Finite negative m \<Rightarrow> six_decimals (format_6f (floats cv) a))"
  by (simp add: format_6f_def fmt6_six_decimals split: float_class.splits)


lemma list_index_first:
  "list_index xs x = Some i \<Longrightarrow> i < length xs \<and> xs ! i = x \<and> x \<notin> set (take i xs)"
proof (induction xs arbitrary: i)
  case Nil
  then show ?case by simp
next
  case (Cons y ys)
  show ?case
  proof (cases "y = x")
    case True
    then show ?thesis using Cons.prems by simp
  next
    case False
    then obtain j where j: "list_index ys x = Some j" and i: "i = Suc j"
      using Cons.prems by auto
    then show ?thesis using Cons.IH [OF j] False by simp
  qed
qed

section \<open>The loop over the object records and the file written\<close>

lemma write_objects_append:
  "write_objects cv cl sz (pre @ post) out =
     (case write_objects cv cl sz pre out of
        (None, out') \<Rightarrow> write_objects cv cl sz post out'
      | (Some e, out') \<Rightarrow> (Some e, out'))"
  by (induction pre arbitrary: out) (auto split: outcome.splits)

lemma write_objects_skip:
  "process_object cv cl sz obj = Skip \<Longrightarrow>
   write_objects cv cl sz (pre @ obj # post) out = write_objects cv cl sz (pre @ post) out"
  by (simp add: write_objects_append split: prod.splits option.splits)



lemma write_objects_no_emit:
  "(\<And>obj l. obj \<in> set objs \<Longrightarrow> process_object cv cl sz obj \<noteq> Emit l) \<Longrightarrow>
   snd (write_objects cv cl sz objs out) = out"
  by (induction objs arbitrary: out) (auto split: outcome.splits)

lemma write_objects_all_skip:
  "(\<And>obj. obj \<in> set objs \<Longrightarrow> process_object cv cl sz obj = Skip) \<Longrightarrow>
   write_objects cv cl sz objs out = (None, out)"
  by (induction objs arbitrary: out) (auto split: outcome.splits)

lemma convert_annotation_None: "convert_annotation cv od cl (p, None) fs = (False, fs)"
  by (simp add: convert_annotation_def)

lemma convert_annotation_no_size:
  "find_elem r ''size'' = None \<Longrightarrow>
   convert_annotation cv od cl (p, Some r) fs = (False, fs(output_path od p \<mapsto> []))"
  by (simp add: convert_annotation_def)

lemma convert_annotation_bad_size:
  "find_elem r ''size'' = Some s \<Longrightarrow> read_size cv s = Inl e \<Longrightarrow>
   convert_annotation cv od cl (p, Some r) fs = (False, fs(output_path od p \<mapsto> []))"
  by (simp add: convert_annotation_def)

lemma convert_annotation_objects:
  "find_elem r ''size'' = Some s \<Longrightarrow> read_size cv s = Inr sz \<Longrightarrow>
   convert_annotation cv od cl (p, Some r) fs =
     (fst (write_objects cv cl sz (iter r ''object'') []) = None,
      fs(output_path od p \<mapsto> snd (write_objects cv cl sz (iter r ''object'') [])))"
  by (simp add: convert_annotation_def Let_def split: prod.splits option.splits)



section \<open>Outcomes of one object record\<close>

lemma process_object_EmitD:
  assumes "process_object cv classes image_size obj = Emit l"
  shows "\<exists>cls cls_id xmlbox box bb.
           is_difficult cv obj = Inr False
         \<and> find_text obj ''name'' = Inr (Some cls) \<and> cls \<in> set classes
         \<and> list_index classes cls = Some cls_id
         \<and> find_elem obj ''bndbox'' = Some xmlbox \<and> read_box cv xmlbox = Inr box
         \<and> convert_coordinates (floats cv) image_size box = Inr bb \<and> l = yolo_line (floats cv) cls_id bb"
  using assms unfolding process_object_def
  by (auto split: sum.splits bool.splits option.splits if_splits)

lemma process_object_difficult:
  "is_difficult cv obj = Inr True \<Longrightarrow> process_object cv classes image_size obj = Skip"
  by (simp add: process_object_def)






lemma convert_coordinates_zero:
  "w = 0 \<or> h = 0 \<Longrightarrow> \<exists>e. convert_coordinates (floats cv) (w, h) box = Inl e"
  by (auto simp: convert_coordinates_def py_truediv_def split: option.splits sum.splits)

lemma convert_coordinates_values:
  "w \<noteq> 0 \<Longrightarrow> h \<noteq> 0 \<Longrightarrow> float_of_int (floats cv) w = Some fw \<Longrightarrow> float_of_int (floats cv) h = Some fh \<Longrightarrow>
   \<exists>bb. convert_coordinates (floats cv) (w, h) box = Inr bb"
  by (cases box) (simp add: convert_coordinates_def py_truediv_def Let_def)

lemma write_objects_fst_no_emit:
  "(\<And>obj l. obj \<in> set objs \<Longrightarrow> process_object cv cl sz obj \<noteq> Emit l) \<Longrightarrow>
   (fst (write_objects cv cl sz objs out) = None) =
     list_all (\<lambda>obj. process_object cv cl sz obj = Skip) objs"
  by (induction objs arbitrary: out) (auto split: outcome.splits)

lemma is_difficult_flag_one:
  "find_elem obj ''difficult'' = Some d \<Longrightarrow> py_int cv (text_of d) = Inr 1 \<Longrightarrow>
   is_difficult cv obj = Inr True"
  by (simp add: is_difficult_def)

section \<open>Paths of the output files\<close>

lemma basename_stem:
  assumes "CHR ''/'' \<notin> set name"
  shows "basename (dir @ ''/'' @ name) = name"
proof -
  have "takeWhile (\<lambda>c. c \<noteq> CHR ''/'') (rev name @ CHR ''/'' # rev dir) =
          rev name @ takeWhile (\<lambda>c. c \<noteq> CHR ''/'') (CHR ''/'' # rev dir)"
    by (rule takeWhile_append2) (use assms in auto)
  then show ?thesis by (simp add: basename_def)
qed

lemma output_path_stem:
  assumes "CHR ''/'' \<notin> set stem" and "CHR ''/'' \<notin> set ext" and "length ext = 4"
    and "output_dir \<noteq> []" and "last output_dir \<noteq> CHR ''/''"
  shows "output_path output_dir (dir @ ''/'' @ stem @ ext) = output_dir @ ''/'' @ stem @ ''.txt''"
proof -
  have "CHR ''/'' \<notin> set (stem @ ext)" using assms by simp
  then have b: "basename (dir @ ''/'' @ (stem @ ext)) = stem @ ext" by (rule basename_stem)
  have h: "hd (stem @ ''.txt'') \<noteq> CHR ''/''" using assms(1) by (cases stem) auto
  show ?thesis
    using b h assms by (simp add: output_path_def path_join_def)
qed

section \<open>Binary64 arithmetic, evaluated\<close>

lemma pow2_pos: "0 < pow2 k"
  by (simp add: pow2_def)

lemma pow2_powr: "pow2 k = 2 powr (of_int k)"
proof (cases "0 \<le> k")
  case True
  then show ?thesis by (simp add: pow2_def powr_realpow [symmetric])
next
  case False
  then have "(2::real) powr (of_int k) = 1 / 2 powr (of_int (- k))"
    by (simp add: powr_minus_divide)
  also have "\<dots> = 1 / 2 ^ nat (- k)" using False by (simp add: powr_realpow [symmetric])
  finally show ?thesis using False by (simp add: pow2_def)
qed

lemma floor_log2:
  assumes "pow2 e \<le> m" and "m < pow2 (e + 1)"
  shows "\<lfloor>log 2 m\<rfloor> = e"
proof -
  have m: "0 < m" using assms(1) pow2_pos [of e] by linarith
  have "of_int e \<le> log 2 m"
    using assms(1) m by (simp add: pow2_powr le_log_iff)
  moreover have "log 2 m < of_int e + 1"
    using assms(2) m by (simp add: pow2_powr log_less_iff add.commute)
  ultimately show ?thesis by linarith
qed

text \<open>
  Rounding a magnitude whose binade is known: with \<open>2 ^ e \<le> m < 2 ^ (e + 1)\<close>
  the step is \<open>2 ^ (max e (- 1022) - 52)\<close>.
\<close>

lemma b64_round_eval:
  assumes "pow2 e \<le> m" and "m < pow2 (e + 1)"
  shows "b64_round m =
           real (round_half_even (m / pow2 (max e (- 1022) - 52))) * pow2 (max e (- 1022) - 52)"
proof -
  have m: "m \<noteq> 0" using assms(1) pow2_pos [of e] by linarith
  show ?thesis using m floor_log2 [OF assms] by (simp add: b64_round_def b64_exponent_def Let_def)
qed

lemma b64_of_real_eval:
  assumes "pow2 e \<le> m" and "m < pow2 (e + 1)"
    and "real (round_half_even (m / pow2 (max e (- 1022) - 52))) * pow2 (max e (- 1022) - 52) = r"
    and "r < 2 ^ 1024"
  shows "b64_of_real s m = Finite s r"
  using b64_round_eval [OF assms(1,2)] assms(3,4) by (simp add: b64_of_real_def Let_def)

lemma b64_of_real_overflow:
  assumes "pow2 e \<le> m" and "m < pow2 (e + 1)"
    and "real (round_half_even (m / pow2 (max e (- 1022) - 52))) * pow2 (max e (- 1022) - 52) = r"
    and "2 ^ 1024 \<le> r"
  shows "b64_of_real s m = Infinite s"
  using b64_round_eval [OF assms(1,2)] assms(3,4) by (simp add: b64_of_real_def Let_def)

lemmas b64_eval = pow2_def round_half_even_def Let_def

lemma binary64_fields:
  "float_of_int binary64 = b64_of_int"
  "float_one binary64 = Finite False 1" "float_two binary64 = Finite False 2"
  "float_add binary64 = b64_add" "float_sub binary64 = b64_sub"
  "float_mul binary64 = b64_mul" "float_div binary64 = b64_div"
  by (simp_all add: binary64_def)

subsection \<open>The image (5, 5) with the box (0, 3, 0, 3)\<close>

lemma b64_of_real_5: "b64_of_real False 5 = Finite False 5"
  by (rule b64_of_real_eval [of 2]) (simp_all add: b64_eval)

lemma b64_of_real_3: "b64_of_real False 3 = Finite False 3"
  by (rule b64_of_real_eval [of 1]) (simp_all add: b64_eval)

lemma b64_of_real_3_2: "b64_of_real False (3 / 2) = Finite False (3 / 2)"
  by (rule b64_of_real_eval [of 0]) (simp_all add: b64_eval)

lemma b64_of_real_1_5: "b64_of_real False (1 / 5) = Finite False (7205759403792794 / 2 ^ 55)"
  by (rule b64_of_real_eval [of "- 3"]) (simp_all add: b64_eval)

lemma b64_of_real_3_10: "b64_of_real False (3 / 10) = Finite False (5404319552844595 / 2 ^ 54)"
  by (rule b64_of_real_eval [of "- 2"]) (simp_all add: b64_eval)

lemma b64_of_real_3_5: "b64_of_real False (3 / 5) = Finite False (5404319552844595 / 2 ^ 53)"
  by (rule b64_of_real_eval [of "- 1"]) (simp_all add: b64_eval)

lemma b64_of_real_x5:
  "b64_of_real False (3 / 2 * (7205759403792794 / 2 ^ 55)) = Finite False (5404319552844596 / 2 ^ 54)"
  by (rule b64_of_real_eval [of "- 2"]) (simp_all add: b64_eval)

lemma b64_of_real_w5:
  "b64_of_real False (3 * (7205759403792794 / 2 ^ 55)) = Finite False (5404319552844596 / 2 ^ 53)"
  by (rule b64_of_real_eval [of "- 1"]) (simp_all add: b64_eval)

lemma b64_of_int_5: "b64_of_int 5 = Some (Finite False 5)"
  using b64_of_real_5 by (simp add: b64_of_int_def)

lemma cex_dw:
  "py_truediv binary64 (Finite False 1) 5 = Inr (Finite False (7205759403792794 / 2 ^ 55))"
  using b64_of_int_5 b64_of_real_1_5 by (simp add: py_truediv_def binary64_def)

lemma cex_recip:
  "b64_div (Finite False 1) (Finite False 5) = Finite False (7205759403792794 / 2 ^ 55)"
  using b64_of_real_1_5 by simp

lemma cex_sum: "b64_add (Finite False 0) (Finite False 3) = Finite False 3"
  using b64_of_real_3 by simp

lemma cex_diff: "b64_sub (Finite False 3) (Finite False 0) = Finite False 3"
  using b64_of_real_3 by (simp add: b64_sub_def)

lemma cex_half: "b64_div (Finite False 3) (Finite False 2) = Finite False (3 / 2)"
  using b64_of_real_3_2 by simp

lemma cex_x:
  "b64_mul (Finite False (3 / 2)) (Finite False (7205759403792794 / 2 ^ 55)) =
     Finite False (5404319552844596 / 2 ^ 54)"
  using b64_of_real_x5 by simp

lemma cex_w:
  "b64_mul (Finite False 3) (Finite False (7205759403792794 / 2 ^ 55)) =
     Finite False (5404319552844596 / 2 ^ 53)"
  using b64_of_real_w5 by simp

lemma cex_code:
  "convert_coordinates binary64 (5, 5)
     (Finite False 0, Finite False 3, Finite False 0, Finite False 3) =
     Inr (Finite False (5404319552844596 / 2 ^ 54), Finite False (5404319552844596 / 2 ^ 54),
          Finite False (5404319552844596 / 2 ^ 53), Finite False (5404319552844596 / 2 ^ 53))"
  unfolding convert_coordinates_def binary64_fields fst_conv snd_conv cex_dw
  by (simp only: sum.case prod.case Let_def cex_sum cex_diff cex_half cex_x cex_w)

lemma cex_claimed_x:
  "b64_div (b64_div (b64_add (Finite False 0) (Finite False 3)) (Finite False 2)) (Finite False 5) =
     Finite False (5404319552844595 / 2 ^ 54)"
  unfolding cex_sum cex_half using b64_of_real_3_10 by simp

lemma cex_claimed_w:
  "b64_div (b64_sub (Finite False 3) (Finite False 0)) (Finite False 5) =
     Finite False (5404319552844595 / 2 ^ 53)"
  unfolding cex_diff using b64_of_real_3_5 by simp

subsection \<open>The image (100, 200) with the box (10, 30, 50, 150)\<close>

lemma b64_of_real_20: "b64_of_real False 20 = Finite False 20"
  by (rule b64_of_real_eval [of 4]) (simp_all add: b64_eval)

lemma b64_of_real_40: "b64_of_real False 40 = Finite False 40"
  by (rule b64_of_real_eval [of 5]) (simp_all add: b64_eval)

lemma b64_of_real_100: "b64_of_real False 100 = Finite False 100"
  by (rule b64_of_real_eval [of 6]) (simp_all add: b64_eval)

lemma b64_of_real_200: "b64_of_real False 200 = Finite False 200"
  by (rule b64_of_real_eval [of 7]) (simp_all add: b64_eval)

lemma b64_of_real_1_100:
  "b64_of_real False (1 / 100) = Finite False (5764607523034235 / 2 ^ 59)"
  by (rule b64_of_real_eval [of "- 7"]) (simp_all add: b64_eval)

lemma b64_of_real_1_200:
  "b64_of_real False (1 / 200) = Finite False (5764607523034235 / 2 ^ 60)"
  by (rule b64_of_real_eval [of "- 8"]) (simp_all add: b64_eval)

lemma b64_of_real_1_2: "b64_of_real False (1 / 2) = Finite False (1 / 2)"
  by (rule b64_of_real_eval [of "- 1"]) (simp_all add: b64_eval)

lemma b64_of_real_x100:
  "b64_of_real False (20 * (5764607523034235 / 2 ^ 59)) = Finite False (7205759403792794 / 2 ^ 55)"
  by (rule b64_of_real_eval [of "- 3"]) (simp_all add: b64_eval)

lemma b64_of_real_y200:
  "b64_of_real False (100 * (5764607523034235 / 2 ^ 60)) = Finite False (1 / 2)"
  by (rule b64_of_real_eval [of "- 1"]) (simp_all add: b64_eval)

lemma b64_of_int_100: "b64_of_int 100 = Some (Finite False 100)"
  using b64_of_real_100 by (simp add: b64_of_int_def)

lemma b64_of_int_200: "b64_of_int 200 = Some (Finite False 200)"
  using b64_of_real_200 by (simp add: b64_of_int_def)

lemma ex100_dw:
  "b64_div (Finite False 1) (Finite False 100) = Finite False (5764607523034235 / 2 ^ 59)"
  using b64_of_real_1_100 by simp

lemma ex100_dh:
  "b64_div (Finite False 1) (Finite False 200) = Finite False (5764607523034235 / 2 ^ 60)"
  using b64_of_real_1_200 by simp

lemma ex100_x:
  "b64_mul (b64_div (b64_add (Finite False 10) (Finite False 30)) (Finite False 2))
     (Finite False (5764607523034235 / 2 ^ 59)) = Finite False (7205759403792794 / 2 ^ 55)"
proof -
  have "b64_add (Finite False 10) (Finite False 30) = Finite False 40"
    using b64_of_real_40 by simp
  moreover have "b64_div (Finite False 40) (Finite False 2) = Finite False 20"
    using b64_of_real_20 by simp
  moreover have "b64_mul (Finite False 20) (Finite False (5764607523034235 / 2 ^ 59)) =
      Finite False (7205759403792794 / 2 ^ 55)"
    using b64_of_real_x100 by simp
  ultimately show ?thesis by simp
qed

lemma ex100_y:
  "b64_mul (b64_div (b64_add (Finite False 50) (Finite False 150)) (Finite False 2))
     (Finite False (5764607523034235 / 2 ^ 60)) = Finite False (1 / 2)"
proof -
  have "b64_add (Finite False 50) (Finite False 150) = Finite False 200"
    using b64_of_real_200 by simp
  moreover have "b64_div (Finite False 200) (Finite False 2) = Finite False 100"
    using b64_of_real_100 by simp
  moreover have "b64_mul (Finite False 100) (Finite False (5764607523034235 / 2 ^ 60)) =
      Finite False (1 / 2)"
    using b64_of_real_y200 by simp
  ultimately show ?thesis by simp
qed

lemma ex100_w:
  "b64_mul (b64_sub (Finite False 30) (Finite False 10))
     (Finite False (5764607523034235 / 2 ^ 59)) = Finite False (7205759403792794 / 2 ^ 55)"
proof -
  have "b64_sub (Finite False 30) (Finite False 10) = Finite False 20"
    using b64_of_real_20 by (simp add: b64_sub_def)
  moreover have "b64_mul (Finite False 20) (Finite False (5764607523034235 / 2 ^ 59)) =
      Finite False (7205759403792794 / 2 ^ 55)"
    using b64_of_real_x100 by simp
  ultimately show ?thesis by simp
qed

lemma ex100_h:
  "b64_mul (b64_sub (Finite False 150) (Finite False 50))
     (Finite False (5764607523034235 / 2 ^ 60)) = Finite False (1 / 2)"
proof -
  have "b64_sub (Finite False 150) (Finite False 50) = Finite False 100"
    using b64_of_real_100 by (simp add: b64_sub_def)
  moreover have "b64_mul (Finite False 100) (Finite False (5764607523034235 / 2 ^ 60)) =
      Finite False (1 / 2)"
    using b64_of_real_y200 by simp
  ultimately show ?thesis by simp
qed

lemma b64_literal_0_2: "b64_of_real False (2 / 10) = Finite False (7205759403792794 / 2 ^ 55)"
  using b64_of_real_1_5 by simp

lemma b64_literal_0_5: "b64_of_real False (5 / 10) = Finite False (1 / 2)"
  using b64_of_real_1_2 by simp

lemma convert_coordinates_Inr:
  assumes "w \<noteq> 0" and "h \<noteq> 0"
    and "float_of_int ops w = Some fw" and "float_of_int ops h = Some fh"
  shows "convert_coordinates ops (w, h) (xmin, xmax, ymin, ymax) =
           Inr (float_mul ops (float_div ops (float_add ops xmin xmax) (float_two ops))
                  (float_div ops (float_one ops) fw),
                float_mul ops (float_div ops (float_add ops ymin ymax) (float_two ops))
                  (float_div ops (float_one ops) fh),
                float_mul ops (float_sub ops xmax xmin) (float_div ops (float_one ops) fw),
                float_mul ops (float_sub ops ymax ymin) (float_div ops (float_one ops) fh))"
  using assms by (simp add: convert_coordinates_def py_truediv_def Let_def)

lemma ex100_code:
  "convert_coordinates binary64 (100, 200)
     (Finite False 10, Finite False 30, Finite False 50, Finite False 150) =
     Inr (Finite False (7205759403792794 / 2 ^ 55), Finite False (1 / 2),
          Finite False (7205759403792794 / 2 ^ 55), Finite False (1 / 2))"
proof -
  have w: "float_of_int binary64 100 = Some (Finite False 100)"
    and h: "float_of_int binary64 200 = Some (Finite False 200)"
    by (simp_all add: binary64_fields b64_of_int_100 b64_of_int_200)
  have "convert_coordinates binary64 (100, 200)
     (Finite False 10, Finite False 30, Finite False 50, Finite False 150) =
     Inr (float_mul binary64
            (float_div binary64 (float_add binary64 (Finite False 10) (Finite False 30))
               (float_two binary64))
            (float_div binary64 (float_one binary64) (Finite False 100)),
          float_mul binary64
            (float_div binary64 (float_add binary64 (Finite False 50) (Finite False 150))
               (float_two binary64))
            (float_div binary64 (float_one binary64) (Finite False 200)),
          float_mul binary64 (float_sub binary64 (Finite False 30) (Finite False 10))
            (float_div binary64 (float_one binary64) (Finite False 100)),
          float_mul binary64 (float_sub binary64 (Finite False 150) (Finite False 50))
            (float_div binary64 (float_one binary64) (Finite False 200)))"
    using w h by (intro convert_coordinates_Inr) simp_all
  then show ?thesis
    by (simp only: binary64_fields ex100_dw ex100_dh ex100_x ex100_y ex100_w ex100_h)
qed

section \<open>The values of the coordinate transform\<close>

text \<open>
  Claim C1, as the code has it. For an image width and height that are not
  zero and convert to floats, the transform returns the centre and the extent
  of the box multiplied by the reciprocals \<^verbatim>\<open>1.0 / w\<close> and \<^verbatim>\<open>1.0 / h\<close>,
  whatever the corners are (nothing is clamped or rejected); every operation
  is an operation on floats, so the product is not always the float that the
  division by the width would give. In binary64 the image (100, 200) with the
  box (10, 30, 50, 150) gives the floats 0.2, 0.5, 0.2 and 0.5: the floats
  nearest to 2/10 and 5/10.
\<close>

theorem convert_coordinates_products:
  assumes "w \<noteq> 0" and "h \<noteq> 0"
    and "float_of_int ops w = Some fw" and "float_of_int ops h = Some fh"
  shows "convert_coordinates ops (w, h) (xmin, xmax, ymin, ymax) =
           Inr (float_mul ops (float_div ops (float_add ops xmin xmax) (float_two ops))
                  (float_div ops (float_one ops) fw),
                float_mul ops (float_div ops (float_add ops ymin ymax) (float_two ops))
                  (float_div ops (float_one ops) fh),
                float_mul ops (float_sub ops xmax xmin) (float_div ops (float_one ops) fw),
                float_mul ops (float_sub ops ymax ymin) (float_div ops (float_one ops) fh))
       \<and> convert_coordinates binary64 (100, 200)
           (Finite False 10, Finite False 30, Finite False 50, Finite False 150) =
           Inr (b64_of_real False (2 / 10), b64_of_real False (5 / 10),
                b64_of_real False (2 / 10), b64_of_real False (5 / 10))"
proof
  show "convert_coordinates ops (w, h) (xmin, xmax, ymin, ymax) =
           Inr (float_mul ops (float_div ops (float_add ops xmin xmax) (float_two ops))
                  (float_div ops (float_one ops) fw),
                float_mul ops (float_div ops (float_add ops ymin ymax) (float_two ops))
                  (float_div ops (float_one ops) fh),
                float_mul ops (float_sub ops xmax xmin) (float_div ops (float_one ops) fw),
                float_mul ops (float_sub ops ymax ymin) (float_div ops (float_one ops) fh))"
    using assms by (rule convert_coordinates_Inr)
  show "convert_coordinates binary64 (100, 200)
           (Finite False 10, Finite False 30, Finite False 50, Finite False 150) =
           Inr (b64_of_real False (2 / 10), b64_of_real False (5 / 10),
                b64_of_real False (2 / 10), b64_of_real False (5 / 10))"
    unfolding b64_literal_0_2 b64_literal_0_5 by (rule ex100_code)
qed

theorem convert_coordinates_products_witness:
  "(5::int) \<noteq> 0 \<and> float_of_int binary64 5 = Some (Finite False 5)
   \<and> convert_coordinates binary64 (5, 5)
       (Finite False 0, Finite False 3, Finite False 0, Finite False 3) =
       Inr (Finite False (5404319552844596 / 2 ^ 54), Finite False (5404319552844596 / 2 ^ 54),
            Finite False (5404319552844596 / 2 ^ 53), Finite False (5404319552844596 / 2 ^ 53))"
proof -
  have n: "(5::int) \<noteq> 0" by simp
  have f: "float_of_int binary64 5 = Some (Finite False 5)"
    by (simp add: binary64_fields b64_of_int_5)
  note p = convert_coordinates_products [OF n n f f, THEN conjunct1]
  have "convert_coordinates binary64 (5, 5)
       (Finite False 0, Finite False 3, Finite False 0, Finite False 3) =
       Inr (Finite False (5404319552844596 / 2 ^ 54), Finite False (5404319552844596 / 2 ^ 54),
            Finite False (5404319552844596 / 2 ^ 53), Finite False (5404319552844596 / 2 ^ 53))"
    by (simp only: p binary64_fields cex_recip cex_sum cex_diff cex_half cex_x cex_w)
  with n f show ?thesis by (intro conjI)
qed

theorem convert_coordinates_counterexample:
  "convert_coordinates binary64 (5, 5)
     (Finite False 0, Finite False 3, Finite False 0, Finite False 3) =
     Inr (Finite False (5404319552844596 / 2 ^ 54), Finite False (5404319552844596 / 2 ^ 54),
          Finite False (5404319552844596 / 2 ^ 53), Finite False (5404319552844596 / 2 ^ 53))
   \<and> b64_div (b64_div (b64_add (Finite False 0) (Finite False 3)) (Finite False 2)) (Finite False 5) =
       Finite False (5404319552844595 / 2 ^ 54)
   \<and> b64_div (b64_sub (Finite False 3) (Finite False 0)) (Finite False 5) =
       Finite False (5404319552844595 / 2 ^ 53)
   \<and> convert_coordinates binary64 (5, 5)
       (Finite False 0, Finite False 3, Finite False 0, Finite False 3) \<noteq>
       Inr (b64_div (b64_div (b64_add (Finite False 0) (Finite False 3)) (Finite False 2)) (Finite False 5),
            b64_div (b64_div (b64_add (Finite False 0) (Finite False 3)) (Finite False 2)) (Finite False 5),
            b64_div (b64_sub (Finite False 3) (Finite False 0)) (Finite False 5),
            b64_div (b64_sub (Finite False 3) (Finite False 0)) (Finite False 5))"
  unfolding cex_code cex_claimed_x cex_claimed_w by simp

section \<open>Rounding to binary64\<close>

subsection \<open>Rounding to an integer, ties to even\<close>

lemma rhe_of_nat: "round_half_even (real n) = n"
  by (simp add: round_half_even_def Let_def)

lemma rhe_bounds:
  assumes "0 \<le> r"
  shows "real (round_half_even r) \<le> r + 1 / 2" and "r - 1 / 2 \<le> real (round_half_even r)"
proof -
  define f where "f = \<lfloor>r\<rfloor>"
  have a: "of_int f \<le> r" "r < of_int f + 1" "0 \<le> f"
    using assms unfolding f_def by (linarith, linarith, simp)
  have e: "round_half_even r =
      nat (if r - of_int f < 1 / 2 then f else if 1 / 2 < r - of_int f then f + 1
           else if even f then f else f + 1)"
    unfolding round_half_even_def f_def Let_def ..
  show "real (round_half_even r) \<le> r + 1 / 2"
    unfolding e using a by (auto split: if_splits)
  show "r - 1 / 2 \<le> real (round_half_even r)"
    unfolding e using a by (auto split: if_splits)
qed

lemma rhe_mono:
  assumes "0 \<le> a" and "a \<le> b"
  shows "round_half_even a \<le> round_half_even b"
proof -
  define k where "k r = (let f = \<lfloor>r\<rfloor>; d = r - of_int f
      in (if d < 1 / 2 then f else if 1 / 2 < d then f + 1 else if even f then f else f + 1))" for r :: real
  have r: "round_half_even r = nat (k r)" for r
    by (simp add: round_half_even_def k_def Let_def)
  have lo: "\<lfloor>r\<rfloor> \<le> k r" and hi: "k r \<le> \<lfloor>r\<rfloor> + 1" for r
    by (auto simp: k_def Let_def)
  have "k a \<le> k b"
  proof (cases "\<lfloor>a\<rfloor> = \<lfloor>b\<rfloor>")
    case True
    then show ?thesis using assms(2) by (auto simp: k_def Let_def)
  next
    case False
    then have "\<lfloor>a\<rfloor> < \<lfloor>b\<rfloor>" using assms(2) floor_mono [of a b] by linarith
    then show ?thesis using hi [of a] lo [of b] by linarith
  qed
  then show ?thesis by (simp add: r)
qed

subsection \<open>Rounding is monotone\<close>

lemma pow2_add: "pow2 (a + b) = pow2 a * pow2 b"
  by (simp add: pow2_powr powr_add)

lemma pow2_mono: "a \<le> b \<Longrightarrow> pow2 a \<le> pow2 b"
  by (simp add: pow2_powr)

lemma pow2_nat: "pow2 (int n) = 2 ^ n"
  by (simp add: pow2_def)

lemma pow2_real_nat: "pow2 (int n) = real (2 ^ n)"
  by (simp add: pow2_def)

lemma pow2_53: "pow2 (e + 1) = pow2 (e - 52) * 2 ^ 53"
proof -
  have "e + 1 = (e - 52) + 53" by simp
  then have "pow2 (e + 1) = pow2 ((e - 52) + 53)" by (rule arg_cong)
  also have "\<dots> = pow2 (e - 52) * pow2 53" by (rule pow2_add)
  finally show ?thesis by (simp add: pow2_def)
qed

lemma pow2_52: "pow2 e = pow2 (e - 52) * 2 ^ 52"
proof -
  have "e = (e - 52) + 52" by simp
  then have "pow2 e = pow2 ((e - 52) + 52)" by (rule arg_cong)
  also have "\<dots> = pow2 (e - 52) * pow2 52" by (rule pow2_add)
  finally show ?thesis by (simp add: pow2_def)
qed

lemma log2_bounds:
  assumes "0 < m"
  shows "pow2 \<lfloor>log 2 m\<rfloor> \<le> m" and "m < pow2 (\<lfloor>log 2 m\<rfloor> + 1)"
  using floor_log_eq_powr_iff [of m 2 "\<lfloor>log 2 m\<rfloor>"] assms by (simp_all add: pow2_powr)

lemma b64_exponent_mono:
  assumes "0 < a" and "a \<le> b"
  shows "b64_exponent a \<le> b64_exponent b"
proof -
  have "log 2 a \<le> log 2 b" using assms by simp
  then have "\<lfloor>log 2 a\<rfloor> \<le> \<lfloor>log 2 b\<rfloor>" by (rule floor_mono)
  then show ?thesis by (simp add: b64_exponent_def)
qed

lemma b64_round_pos:
  assumes "0 < m"
  shows "b64_round m = real (round_half_even (m / pow2 (b64_exponent m - 52))) * pow2 (b64_exponent m - 52)"
  using assms by (simp add: b64_round_def Let_def)

lemma b64_round_nonneg: "0 \<le> b64_round m"
  using pow2_pos [of "b64_exponent m - 52"] by (simp add: b64_round_def Let_def)

lemma b64_round_0: "b64_round 0 = 0"
  by (simp add: b64_round_def)

text \<open>The scaled magnitude is below 2 ^ 53, and at least 2 ^ 52 in the normal range.\<close>

lemma scaled_upper:
  assumes "0 < m"
  shows "m / pow2 (b64_exponent m - 52) < 2 ^ 53"
proof -
  have "m < pow2 (\<lfloor>log 2 m\<rfloor> + 1)" using assms by (rule log2_bounds)
  also have "\<dots> \<le> pow2 (b64_exponent m + 1)" by (rule pow2_mono) (simp add: b64_exponent_def)
  also have "\<dots> = pow2 (b64_exponent m - 52) * 2 ^ 53" by (rule pow2_53)
  finally have "m < pow2 (b64_exponent m - 52) * 2 ^ 53" .
  then show ?thesis using pow2_pos [of "b64_exponent m - 52"]
    by (simp add: field_simps)
qed

lemma scaled_lower:
  assumes "0 < m" and "- 1022 \<le> \<lfloor>log 2 m\<rfloor>"
  shows "2 ^ 52 \<le> m / pow2 (b64_exponent m - 52)"
proof -
  have e: "b64_exponent m = \<lfloor>log 2 m\<rfloor>" using assms(2) by (simp add: b64_exponent_def)
  have "pow2 (b64_exponent m - 52) * 2 ^ 52 = pow2 (b64_exponent m)"
    by (rule pow2_52 [symmetric])
  also have "\<dots> \<le> m" unfolding e using assms(1) by (rule log2_bounds)
  finally have "pow2 (b64_exponent m - 52) * 2 ^ 52 \<le> m" .
  then show ?thesis using pow2_pos [of "b64_exponent m - 52"]
    by (simp add: field_simps)
qed

lemma rhe_le_pow: "0 \<le> r \<Longrightarrow> r \<le> 2 ^ n \<Longrightarrow> round_half_even r \<le> 2 ^ n"
  using rhe_mono [of r "real (2 ^ n)"] rhe_of_nat [of "2 ^ n"] by simp

lemma rhe_ge_pow: "2 ^ n \<le> r \<Longrightarrow> 2 ^ n \<le> round_half_even r"
  using rhe_mono [of "real (2 ^ n)" r] rhe_of_nat [of "2 ^ n"] by simp

lemma b64_round_upper:
  assumes "0 < m"
  shows "b64_round m \<le> pow2 (b64_exponent m + 1)"
proof -
  let ?q = "pow2 (b64_exponent m - 52)"
  have "0 \<le> m / ?q" using assms pow2_pos [of "b64_exponent m - 52"] by simp
  then have "round_half_even (m / ?q) \<le> 2 ^ 53"
    using scaled_upper [OF assms] by (intro rhe_le_pow) simp_all
  then have "real (round_half_even (m / ?q)) \<le> 2 ^ 53"
    by (metis of_nat_le_iff of_nat_numeral of_nat_power)
  then have "b64_round m \<le> 2 ^ 53 * ?q"
    unfolding b64_round_pos [OF assms] using pow2_pos [of "b64_exponent m - 52"]
    by (simp add: mult_right_mono)
  also have "\<dots> = pow2 (b64_exponent m + 1)"
    using pow2_53 [of "b64_exponent m"] by simp
  finally show ?thesis .
qed

lemma b64_round_lower:
  assumes "0 < m" and "- 1022 \<le> \<lfloor>log 2 m\<rfloor>"
  shows "pow2 (b64_exponent m) \<le> b64_round m"
proof -
  let ?q = "pow2 (b64_exponent m - 52)"
  have "2 ^ 52 \<le> round_half_even (m / ?q)"
    using scaled_lower [OF assms] by (intro rhe_ge_pow) simp
  then have "2 ^ 52 \<le> real (round_half_even (m / ?q))"
    by (metis of_nat_le_iff of_nat_numeral of_nat_power)
  then have "2 ^ 52 * ?q \<le> b64_round m"
    unfolding b64_round_pos [OF assms(1)] using pow2_pos [of "b64_exponent m - 52"]
    by (simp add: mult_right_mono)
  moreover have "2 ^ 52 * ?q = pow2 (b64_exponent m)"
    using pow2_52 [of "b64_exponent m"] by simp
  ultimately show ?thesis by simp
qed

lemma b64_round_mono:
  assumes "0 \<le> a" and "a \<le> b"
  shows "b64_round a \<le> b64_round b"
proof (cases "a = 0")
  case True
  then show ?thesis using b64_round_nonneg by (simp add: b64_round_0)
next
  case False
  then have a: "0 < a" and b: "0 < b" using assms by auto
  have le: "b64_exponent a \<le> b64_exponent b" using a assms(2) by (rule b64_exponent_mono)
  show ?thesis
  proof (cases "b64_exponent a = b64_exponent b")
    case True
    let ?q = "pow2 (b64_exponent b - 52)"
    have q: "0 < ?q" by (rule pow2_pos)
    have "0 \<le> a / ?q" using assms(1) q by simp
    moreover have "a / ?q \<le> b / ?q" using assms(2) q by (simp add: divide_right_mono)
    ultimately have "round_half_even (a / ?q) \<le> round_half_even (b / ?q)" by (rule rhe_mono)
    then have "real (round_half_even (a / ?q)) * ?q \<le> real (round_half_even (b / ?q)) * ?q"
      using q by (simp add: mult_right_mono)
    then show ?thesis unfolding b64_round_pos [OF a] b64_round_pos [OF b] True .
  next
    case False
    then have lt: "b64_exponent a + 1 \<le> b64_exponent b" using le by simp
    then have n: "- 1022 \<le> \<lfloor>log 2 b\<rfloor>" unfolding b64_exponent_def by linarith
    have "b64_round a \<le> pow2 (b64_exponent a + 1)" using a by (rule b64_round_upper)
    also have "\<dots> \<le> pow2 (b64_exponent b)" using lt by (rule pow2_mono)
    also have "\<dots> \<le> b64_round b" using b n by (rule b64_round_lower)
    finally show ?thesis .
  qed
qed

subsection \<open>Floats are fixed points, doubling is exact, and the relative error\<close>

lemma pow2_less_imp: "pow2 a < pow2 b \<Longrightarrow> a < b"
  using pow2_mono [of b a] by (cases "a < b") auto

lemma floor_log2_upper:
  assumes "0 < r" and "r < pow2 (e + 1)"
  shows "\<lfloor>log 2 r\<rfloor> \<le> e"
proof -
  have "pow2 \<lfloor>log 2 r\<rfloor> \<le> r" using assms(1) by (rule log2_bounds)
  then have "pow2 \<lfloor>log 2 r\<rfloor> < pow2 (e + 1)" using assms(2) by simp
  then have "\<lfloor>log 2 r\<rfloor> < e + 1" by (rule pow2_less_imp)
  then show ?thesis by simp
qed

lemma floor_log2_lower:
  assumes "0 < r" and "pow2 e \<le> r"
  shows "e \<le> \<lfloor>log 2 r\<rfloor>"
proof -
  have "r < pow2 (\<lfloor>log 2 r\<rfloor> + 1)" using assms(1) by (rule log2_bounds)
  then have "pow2 e < pow2 (\<lfloor>log 2 r\<rfloor> + 1)" using assms(2) by simp
  then have "e < \<lfloor>log 2 r\<rfloor> + 1" by (rule pow2_less_imp)
  then show ?thesis by simp
qed

lemma b64_exponent_eq:
  assumes "0 < r" and "r < pow2 (e + 1)" and "pow2 e \<le> r \<or> e = - 1022" and "- 1022 \<le> e"
  shows "b64_exponent r = e"
proof -
  have u: "\<lfloor>log 2 r\<rfloor> \<le> e" using assms(1,2) by (rule floor_log2_upper)
  show ?thesis
  proof (cases "pow2 e \<le> r")
    case True
    then have "e \<le> \<lfloor>log 2 r\<rfloor>" using assms(1) by (intro floor_log2_lower)
    then show ?thesis using u assms(4) by (simp add: b64_exponent_def)
  next
    case False
    then have "e = - 1022" using assms(3) by simp
    then show ?thesis using u by (simp add: b64_exponent_def)
  qed
qed

text \<open>A magnitude \<open>n * 2 ^ (e - 52)\<close> of binary64 is left as it is.\<close>

lemma b64_round_fixed:
  assumes "0 < n" and "n < 2 ^ 53" and "2 ^ 52 \<le> n \<or> e = - 1022" and "- 1022 \<le> e"
  shows "b64_round (real n * pow2 (e - 52)) = real n * pow2 (e - 52)"
proof -
  let ?q = "pow2 (e - 52)"
  let ?r = "real n * ?q"
  have q: "0 < ?q" by (rule pow2_pos)
  have r: "0 < ?r" using assms(1) q by simp
  have "real n < 2 ^ 53" using assms(2) by (metis of_nat_less_iff of_nat_numeral of_nat_power)
  then have "?r < 2 ^ 53 * ?q" using q by simp
  then have u: "?r < pow2 (e + 1)" using pow2_53 [of e] by simp
  have l: "pow2 e \<le> ?r \<or> e = - 1022"
  proof (cases "2 ^ 52 \<le> n")
    case True
    then have "2 ^ 52 \<le> real n" by (metis of_nat_le_iff of_nat_numeral of_nat_power)
    then have "2 ^ 52 * ?q \<le> ?r" using q by simp
    then show ?thesis using pow2_52 [of e] by simp
  next
    case False
    then show ?thesis using assms(3) by simp
  qed
  have e: "b64_exponent ?r = e" using r u l assms(4) by (rule b64_exponent_eq)
  have "?r / ?q = real n" using q by simp
  then show ?thesis unfolding b64_round_pos [OF r] e by (simp add: rhe_of_nat)
qed

lemma b64_exponent_ge: "- 1022 \<le> b64_exponent m"
  by (simp add: b64_exponent_def)

lemma b64_round_idem:
  assumes "0 \<le> m"
  shows "b64_round (b64_round m) = b64_round m"
proof (cases "m = 0")
  case True
  then show ?thesis by (simp add: b64_round_0)
next
  case False
  then have m: "0 < m" using assms by simp
  define e where "e = b64_exponent m"
  define n where "n = round_half_even (m / pow2 (e - 52))"
  have r: "b64_round m = real n * pow2 (e - 52)"
    unfolding n_def e_def by (rule b64_round_pos [OF m])
  have e: "- 1022 \<le> e" unfolding e_def by (rule b64_exponent_ge)
  have "0 \<le> m / pow2 (e - 52)" using m pow2_pos [of "e - 52"] by simp
  then have n53: "n \<le> 2 ^ 53"
    unfolding n_def using scaled_upper [OF m] by (intro rhe_le_pow) (simp_all add: e_def)
  consider "n = 0" | "n = 2 ^ 53" | "0 < n" "n < 2 ^ 53" using n53 by linarith
  then show ?thesis
  proof cases
    case 1
    then show ?thesis by (simp add: r b64_round_0)
  next
    case 2
    have "real n * pow2 (e - 52) = pow2 (e + 1)"
      unfolding 2 using pow2_53 [of e] by simp
    also have "\<dots> = real (2 ^ 52) * pow2 ((e + 1) - 52)"
      using pow2_52 [of "e + 1"] by simp
    finally have q: "b64_round m = real (2 ^ 52) * pow2 ((e + 1) - 52)" using r by simp
    show ?thesis unfolding q using e by (intro b64_round_fixed) simp_all
  next
    case 3
    have "2 ^ 52 \<le> n \<or> e = - 1022"
    proof (cases "- 1022 \<le> \<lfloor>log 2 m\<rfloor>")
      case True
      then have "2 ^ 52 \<le> m / pow2 (e - 52)" unfolding e_def using m by (intro scaled_lower)
      then have "2 ^ 52 \<le> n" unfolding n_def by (rule rhe_ge_pow)
      then show ?thesis by simp
    next
      case False
      then show ?thesis by (simp add: e_def b64_exponent_def)
    qed
    then show ?thesis unfolding r using 3 e by (intro b64_round_fixed)
  qed
qed

text \<open>Doubling is exact in the normal range.\<close>

lemma b64_round_double:
  assumes "pow2 (- 1022) \<le> m"
  shows "b64_round (2 * m) = 2 * b64_round m"
proof -
  have m: "0 < m" using assms pow2_pos [of "- 1022"] by linarith
  have l: "- 1022 \<le> \<lfloor>log 2 m\<rfloor>" using m assms by (rule floor_log2_lower)
  have "log 2 (2 * m) = 1 + log 2 m" using m by (simp add: log_mult)
  then have "\<lfloor>log 2 (2 * m)\<rfloor> = \<lfloor>log 2 m\<rfloor> + 1" by simp
  then have e: "b64_exponent (2 * m) = b64_exponent m + 1"
    using l by (simp add: b64_exponent_def)
  have q: "pow2 (b64_exponent m + 1 - 52) = 2 * pow2 (b64_exponent m - 52)"
  proof -
    have "b64_exponent m + 1 - 52 = (b64_exponent m - 52) + 1" by simp
    then have "pow2 (b64_exponent m + 1 - 52) = pow2 ((b64_exponent m - 52) + 1)" by (rule arg_cong)
    also have "\<dots> = pow2 (b64_exponent m - 52) * pow2 1" by (rule pow2_add)
    finally show ?thesis by (simp add: pow2_def)
  qed
  have m2: "0 < 2 * m" using m by simp
  show ?thesis
    unfolding b64_round_pos [OF m2] b64_round_pos [OF m] e q by simp
qed

text \<open>The relative error of rounding up is at most 2 ^ - 53 in the normal range.\<close>

lemma b64_round_rel:
  assumes "pow2 (- 1022) \<le> m"
  shows "b64_round m \<le> m * (1 + 1 / 2 ^ 53)"
proof -
  have m: "0 < m" using assms pow2_pos [of "- 1022"] by linarith
  have l: "- 1022 \<le> \<lfloor>log 2 m\<rfloor>" using m assms by (rule floor_log2_lower)
  let ?q = "pow2 (b64_exponent m - 52)"
  have q: "0 < ?q" by (rule pow2_pos)
  have y: "2 ^ 52 \<le> m / ?q" using m l by (rule scaled_lower)
  then have "0 \<le> m / ?q" by simp
  then have "real (round_half_even (m / ?q)) \<le> m / ?q + 1 / 2" by (rule rhe_bounds)
  also have "\<dots> \<le> m / ?q + (m / ?q) * (1 / 2 ^ 53)" using y by simp
  finally have "real (round_half_even (m / ?q)) \<le> m / ?q + (m / ?q) * (1 / 2 ^ 53)" .
  then have "real (round_half_even (m / ?q)) * ?q \<le> (m / ?q + (m / ?q) * (1 / 2 ^ 53)) * ?q"
    by (rule mult_right_mono) (use q in simp)
  also have "\<dots> = m * (1 + 1 / 2 ^ 53)" using q by (simp add: field_simps)
  finally show ?thesis unfolding b64_round_pos [OF m] .
qed

lemma b64_round_1: "b64_round 1 = 1"
  using b64_round_eval [of 0 1] by (simp add: b64_eval)

lemma b64_round_1_ulp: "b64_round (1 + 1 / 2 ^ 53) = 1"
  using b64_round_eval [of 0 "1 + 1 / 2 ^ 53"] by (simp add: b64_eval)

lemma b64_round_2_1022: "b64_round (2 ^ 1022) = 2 ^ 1022"
  using b64_round_eval [of 1022 "2 ^ 1022"] by (simp add: b64_eval)

section \<open>The transform of a box inside the image\<close>

lemma b64_of_real_finite: "b64_round m < 2 ^ 1024 \<Longrightarrow> b64_of_real s m = Finite s (b64_round m)"
  by (simp add: b64_of_real_def Let_def)

lemma b64_upto_mono: "b64_upto B a \<Longrightarrow> B \<le> C \<Longrightarrow> b64_upto C a"
  unfolding b64_upto_def by fastforce

lemma b64_upto_between: "b64_upto B a \<Longrightarrow> b64_between 0 B a"
  unfolding b64_upto_def b64_between_def by auto

lemma b64_upto_of_real:
  assumes "0 \<le> r" and "r \<le> B" and "b64_round B < 2 ^ 1024" and "r = 0 \<or> s = False"
  shows "b64_upto (b64_round B) (b64_of_real s r)"
proof -
  have le: "b64_round r \<le> b64_round B" using assms(1,2) by (rule b64_round_mono)
  then have "b64_of_real s r = Finite s (b64_round r)"
    using assms(3) by (intro b64_of_real_finite) simp
  moreover have "b64_round r = 0 \<or> s = False" using assms(4) by (auto simp: b64_round_0)
  ultimately show ?thesis using le b64_round_nonneg [of r] unfolding b64_upto_def by simp
qed

lemma b64_upto_add:
  assumes "b64_upto B a" and "b64_upto C b" and "b64_round (B + C) < 2 ^ 1024"
  shows "b64_upto (b64_round (B + C)) (b64_add a b)"
proof -
  obtain s m where a: "a = Finite s m" "0 \<le> m" "m \<le> B" "m = 0 \<or> s = False"
    using assms(1) unfolding b64_upto_def by blast
  obtain t n where b: "b = Finite t n" "0 \<le> n" "n \<le> C" "n = 0 \<or> t = False"
    using assms(2) unfolding b64_upto_def by blast
  have v: "(if s then - m else m) + (if t then - n else n) = m + n"
    using a(4) b(4) by auto
  show ?thesis
  proof (cases "m + n = 0")
    case True
    then show ?thesis
      using v b64_round_nonneg [of "B + C"] unfolding a(1) b(1) b64_upto_def by simp
  next
    case False
    then have p: "0 < m + n" using a(2) b(2) by linarith
    have "b64_add a b = b64_of_real False (m + n)"
      unfolding a(1) b(1) using v p by (simp add: Let_def)
    moreover have "b64_upto (b64_round (B + C)) (b64_of_real False (m + n))"
      using a(2,3) b(2,3) assms(3) by (intro b64_upto_of_real) simp_all
    ultimately show ?thesis by simp
  qed
qed

lemma b64_upto_sub:
  assumes "b64_upto B a" and "b64_upto C b" and "b64_le b a" and "b64_round B < 2 ^ 1024"
  shows "b64_upto (b64_round B) (b64_sub a b)"
proof -
  obtain s m where a: "a = Finite s m" "0 \<le> m" "m \<le> B" "m = 0 \<or> s = False"
    using assms(1) unfolding b64_upto_def by blast
  obtain t n where b: "b = Finite t n" "0 \<le> n" "n \<le> C" "n = 0 \<or> t = False"
    using assms(2) unfolding b64_upto_def by blast
  have le: "n \<le> m" using assms(3) a(2,4) b(2,4) unfolding a(1) b(1) by (auto split: if_splits)
  have v: "(if s then - m else m) + (if \<not> t then - n else n) = m - n"
    using a(4) b(4) by auto
  have e: "b64_sub a b =
      (if m - n = 0 then Finite (s \<and> \<not> t) 0 else b64_of_real (m - n < 0) \<bar>m - n\<bar>)"
    unfolding a(1) b(1) b64_sub_def b64_neg.simps b64_add.simps v Let_def ..
  show ?thesis
  proof (cases "m - n = 0")
    case True
    then show ?thesis
      using b64_round_nonneg [of B] unfolding e b64_upto_def by simp
  next
    case False
    then have p: "0 < m - n" using le by linarith
    have "b64_sub a b = b64_of_real False (m - n)"
      unfolding e using p by simp
    moreover have "b64_upto (b64_round B) (b64_of_real False (m - n))"
      using a(3) b(2) le assms(4) by (intro b64_upto_of_real) simp_all
    ultimately show ?thesis by simp
  qed
qed

lemma b64_upto_half:
  assumes "b64_upto B a" and "b64_round (B / 2) < 2 ^ 1024"
  shows "b64_upto (b64_round (B / 2)) (b64_div a (Finite False 2))"
proof -
  obtain s m where a: "a = Finite s m" "0 \<le> m" "m \<le> B" "m = 0 \<or> s = False"
    using assms(1) unfolding b64_upto_def by blast
  have "b64_div a (Finite False 2) = b64_of_real s (m / 2)" unfolding a(1) by simp
  moreover have "b64_upto (b64_round (B / 2)) (b64_of_real s (m / 2))"
    using a(2,3,4) assms(2) by (intro b64_upto_of_real) auto
  ultimately show ?thesis by simp
qed

lemma b64_upto_mul:
  assumes "b64_upto B a" and "b64_upto C b" and "b64_round (B * C) < 2 ^ 1024"
  shows "b64_upto (b64_round (B * C)) (b64_mul a b)"
proof -
  obtain s m where a: "a = Finite s m" "0 \<le> m" "m \<le> B" "m = 0 \<or> s = False"
    using assms(1) unfolding b64_upto_def by blast
  obtain t n where b: "b = Finite t n" "0 \<le> n" "n \<le> C" "n = 0 \<or> t = False"
    using assms(2) unfolding b64_upto_def by blast
  have "b64_mul a b = b64_of_real (s \<noteq> t) (m * n)" unfolding a(1) b(1) by simp
  moreover have "m * n \<le> B * C" using a(2,3) b(2,3) by (intro mult_mono) simp_all
  then have "b64_upto (b64_round (B * C)) (b64_of_real (s \<noteq> t) (m * n))"
    using a(2,4) b(2,4) assms(3) by (intro b64_upto_of_real) auto
  ultimately show ?thesis by simp
qed

text \<open>One axis of the image: the centre and the extent of an interval inside it.\<close>

lemma b64_axis_unit:
  assumes "0 < w" and "w \<le> 2 ^ 1022"
    and "is_b64 lo" and "is_b64 hi"
    and "b64_between 0 (of_int w) lo" and "b64_between 0 (of_int w) hi" and "b64_le lo hi"
  shows "\<exists>fw. b64_of_int w = Some fw
           \<and> b64_between 0 1
                (b64_mul (b64_div (b64_add lo hi) (Finite False 2)) (b64_div (Finite False 1) fw))
           \<and> b64_between 0 1 (b64_mul (b64_sub hi lo) (b64_div (Finite False 1) fw))"
proof -
  define W where "W = b64_round (of_int w)"
  have w1: "(1::real) \<le> of_int w" and w2: "(of_int w :: real) \<le> 2 ^ 1022"
    using assms(1,2) by (simp_all add: of_int_le_numeral_power_cancel_iff)
  have W1: "1 \<le> W" unfolding W_def using b64_round_mono [of 1 "of_int w"] w1 by (simp add: b64_round_1)
  have "b64_round (of_int w) \<le> b64_round (2 ^ 1022)"
    by (rule b64_round_mono) (use w1 in simp, rule w2)
  then have W2: "W \<le> 2 ^ 1022" unfolding W_def b64_round_2_1022 .
  have Wi: "b64_round W = W" unfolding W_def using w1 by (intro b64_round_idem) simp
  have p: "pow2 (- 1022) \<le> W" using W1 by (simp add: pow2_def) 
  have fw: "b64_of_int w = Some (Finite False W)"
  proof -
    have "b64_of_real False (of_int w) = Finite False W"
      unfolding W_def using W2 by (intro b64_of_real_finite) (simp add: W_def)
    then show ?thesis using assms(1) by (simp add: b64_of_int_def)
  qed
  define D where "D = b64_round (1 / W)"
  have r1: "1 / W \<le> 1" using W1 by simp
  have D1: "D \<le> 1" unfolding D_def using b64_round_mono [of "1 / W" 1] W1 by (simp add: b64_round_1)
  have "pow2 (- 1022) \<le> 1 / W" using W1 W2 by (simp add: pow2_def field_simps)
  then have "D \<le> 1 / W * (1 + 1 / 2 ^ 53)" unfolding D_def by (rule b64_round_rel)
  then have "W * D \<le> W * (1 / W * (1 + 1 / 2 ^ 53))" using W1 by (intro mult_left_mono) simp_all
  then have WD: "W * D \<le> 1 + 1 / 2 ^ 53" using W1 by simp
  have D0: "0 \<le> D" unfolding D_def by (rule b64_round_nonneg)
  have WD0: "0 \<le> W * D" using W1 D0 by simp
  have "b64_round (W * D) \<le> b64_round (1 + 1 / 2 ^ 53)"
    using WD0 WD by (rule b64_round_mono)
  then have WD1: "b64_round (W * D) \<le> 1" unfolding b64_round_1_ulp .
  have dw: "b64_div (Finite False 1) (Finite False W) = Finite False D"
    using D1 by (simp add: D_def b64_of_real_finite)
  have uD: "b64_upto D (Finite False D)"
    unfolding b64_upto_def using D0 by auto
  have inp: "b64_upto W a" if ia: "is_b64 a" and ba: "b64_between 0 (of_int w) a" for a
  proof -
    obtain s m where a: "a = Finite s m" using ba by (cases a) (simp_all add: b64_between_def)
    have m: "0 \<le> m" "b64_round m = m" using ia by (simp_all add: a is_b64_def)
    have z: "m = 0 \<or> s = False" using ba m(1) by (auto simp: a b64_between_def split: if_splits)
    have "m \<le> of_int w" using ba m(1) w1 by (auto simp: a b64_between_def split: if_splits)
    then have "b64_round m \<le> W" unfolding W_def using m(1) by (intro b64_round_mono)
    then show ?thesis unfolding b64_upto_def using a m z by simp
  qed
  have ulo: "b64_upto W lo" and uhi: "b64_upto W hi" using inp assms(3-6) by blast+
  have d2: "b64_round (W + W) = 2 * W"
    using b64_round_double [OF p] Wi by simp
  have "b64_upto (b64_round (W + W)) (b64_add lo hi)"
    using ulo uhi d2 W2 by (intro b64_upto_add) simp_all
  then have us: "b64_upto (2 * W) (b64_add lo hi)" unfolding d2 .
  have "b64_upto (b64_round (2 * W / 2)) (b64_div (b64_add lo hi) (Finite False 2))"
    using us Wi W2 by (intro b64_upto_half) simp_all
  then have uh: "b64_upto W (b64_div (b64_add lo hi) (Finite False 2))" using Wi by simp
  have "b64_upto (b64_round (W * D))
          (b64_mul (b64_div (b64_add lo hi) (Finite False 2)) (Finite False D))"
    using uh uD WD1 by (intro b64_upto_mul) simp_all
  then have x: "b64_upto 1 (b64_mul (b64_div (b64_add lo hi) (Finite False 2)) (Finite False D))"
    using WD1 by (rule b64_upto_mono)
  have "b64_upto (b64_round W) (b64_sub hi lo)"
    using uhi ulo assms(7) Wi W2 by (intro b64_upto_sub) simp_all
  then have ud: "b64_upto W (b64_sub hi lo)" unfolding Wi .
  have "b64_upto (b64_round (W * D)) (b64_mul (b64_sub hi lo) (Finite False D))"
    using ud uD WD1 by (intro b64_upto_mul) simp_all
  then have e: "b64_upto 1 (b64_mul (b64_sub hi lo) (Finite False D))"
    using WD1 by (rule b64_upto_mono)
  show ?thesis
    using fw x e unfolding dw [symmetric] by (auto intro: b64_upto_between)
qed

subsection \<open>The image (100, 200) once more, and an image of width 2 ^ 1023\<close>

lemma b64_round_10: "b64_round 10 = 10"
  using b64_round_eval [of 3 10] by (simp add: b64_eval)

lemma b64_round_30: "b64_round 30 = 30"
  using b64_round_eval [of 4 30] by (simp add: b64_eval)

lemma b64_round_50: "b64_round 50 = 50"
  using b64_round_eval [of 5 50] by (simp add: b64_eval)

lemma b64_round_150: "b64_round 150 = 150"
  using b64_round_eval [of 7 150] by (simp add: b64_eval)

lemma b64_round_2_1023: "b64_round (2 ^ 1023) = 2 ^ 1023"
  using b64_round_eval [of 1023 "2 ^ 1023"] by (simp add: b64_eval)

lemma b64_of_real_2_1023: "b64_of_real False (2 ^ 1023) = Finite False (2 ^ 1023)"
  by (rule b64_of_real_eval [of 1023]) (simp_all add: b64_eval)

lemma b64_of_real_2_1024: "b64_of_real False (2 ^ 1024) = Infinite False"
  by (rule b64_of_real_overflow [of 1024 _ "2 ^ 1024"]) (simp_all add: b64_eval)

lemma b64_of_real_recip_2_1023: "b64_of_real False (1 / 2 ^ 1023) = Finite False (1 / 2 ^ 1023)"
  by (rule b64_of_real_eval [of "- 1023"]) (simp_all add: b64_eval)

lemma b64_of_real_1: "b64_of_real False 1 = Finite False 1"
  by (rule b64_of_real_eval [of 0]) (simp_all add: b64_eval)

lemma b64_of_real_zero: "b64_of_real s 0 = Finite s 0"
  by (simp add: b64_of_real_def b64_round_0)

lemma big_of_int: "b64_of_int (2 ^ 1023) = Some (Finite False (2 ^ 1023))"
  using b64_of_real_2_1023 by (simp add: b64_of_int_def)

lemma one_of_int: "b64_of_int 1 = Some (Finite False 1)"
  using b64_of_real_1 by (simp add: b64_of_int_def)

lemma big_dw: "b64_div (Finite False 1) (Finite False (2 ^ 1023)) = Finite False (1 / 2 ^ 1023)"
  using b64_of_real_recip_2_1023 by simp

lemma one_dh: "b64_div (Finite False 1) (Finite False 1) = Finite False 1"
  using b64_of_real_1 by simp

lemma big_sum: "b64_add (Finite False (2 ^ 1023)) (Finite False (2 ^ 1023)) = Infinite False"
  using b64_of_real_2_1024 by (simp add: Let_def)

lemma big_diff: "b64_sub (Finite False (2 ^ 1023)) (Finite False (2 ^ 1023)) = Finite False 0"
  by (simp add: b64_sub_def)

lemma zero_sum: "b64_add (Finite False 0) (Finite False 0) = Finite False 0"
  by simp

lemma zero_diff: "b64_sub (Finite False 0) (Finite False 0) = Finite False 0"
  by (simp add: b64_sub_def)

lemma zero_half: "b64_div (Finite False 0) (Finite False 2) = Finite False 0"
  by (simp add: b64_of_real_zero)

lemma zero_mul: "b64_mul (Finite False 0) (Finite False m) = Finite False 0"
  by (simp add: b64_of_real_zero)

lemma big_code:
  "convert_coordinates binary64 (2 ^ 1023, 1)
     (Finite False (2 ^ 1023), Finite False (2 ^ 1023), Finite False 0, Finite False 0) =
     Inr (Infinite False, Finite False 0, Finite False 0, Finite False 0)"
proof -
  have w: "float_of_int binary64 (2 ^ 1023) = Some (Finite False (2 ^ 1023))"
    unfolding binary64_fields by (rule big_of_int)
  have h: "float_of_int binary64 1 = Some (Finite False 1)"
    unfolding binary64_fields by (rule one_of_int)
  have n: "(2 ^ 1023 :: int) \<noteq> 0" "(1::int) \<noteq> 0" by simp_all
  have i: "b64_div (Infinite False) (Finite False 2) = Infinite False"
    "b64_mul (Infinite False) (Finite False (1 / 2 ^ 1023)) = Infinite False"
    by simp_all
  show ?thesis
    by (simp only: convert_coordinates_Inr [OF n w h] binary64_fields big_dw one_dh big_sum
        big_diff zero_sum zero_diff zero_half zero_mul i)
qed

text \<open>
  Claim C2, as the code has it. In binary64, for an image whose width and
  height are from 1 to \<open>2 ^ 1022\<close> and for corners that are floats with
  \<open>0 \<le> xmin \<le> xmax \<le> w\<close> and \<open>0 \<le> ymin \<le> ymax \<le> h\<close>, the transform returns four
  finite floats between 0 and 1. In a larger image the sum of two corners can
  overflow and the reciprocal of the size is subnormal, and a value can be
  infinite or above 1.
\<close>

theorem convert_coordinates_unit_interval:
  assumes "0 < w" and "w \<le> 2 ^ 1022" and "0 < h" and "h \<le> 2 ^ 1022"
    and "is_b64 xmin" and "is_b64 xmax" and "is_b64 ymin" and "is_b64 ymax"
    and "b64_between 0 (of_int w) xmin" and "b64_le xmin xmax" and "b64_between 0 (of_int w) xmax"
    and "b64_between 0 (of_int h) ymin" and "b64_le ymin ymax" and "b64_between 0 (of_int h) ymax"
  shows "\<exists>x y wn hn.
           convert_coordinates binary64 (w, h) (xmin, xmax, ymin, ymax) = Inr (x, y, wn, hn)
         \<and> b64_between 0 1 x \<and> b64_between 0 1 y
         \<and> b64_between 0 1 wn \<and> b64_between 0 1 hn"
proof -
  obtain fw where fw: "b64_of_int w = Some fw"
    and x: "b64_between 0 1
              (b64_mul (b64_div (b64_add xmin xmax) (Finite False 2)) (b64_div (Finite False 1) fw))"
    and wn: "b64_between 0 1 (b64_mul (b64_sub xmax xmin) (b64_div (Finite False 1) fw))"
    using b64_axis_unit [OF assms(1,2,5,6,9,11,10)] by blast
  obtain fh where fh: "b64_of_int h = Some fh"
    and y: "b64_between 0 1
              (b64_mul (b64_div (b64_add ymin ymax) (Finite False 2)) (b64_div (Finite False 1) fh))"
    and hn: "b64_between 0 1 (b64_mul (b64_sub ymax ymin) (b64_div (Finite False 1) fh))"
    using b64_axis_unit [OF assms(3,4,7,8,12,14,13)] by blast
  have w0: "w \<noteq> 0" and h0: "h \<noteq> 0" using assms(1,3) by simp_all
  have "convert_coordinates binary64 (w, h) (xmin, xmax, ymin, ymax) =
      Inr (b64_mul (b64_div (b64_add xmin xmax) (Finite False 2)) (b64_div (Finite False 1) fw),
           b64_mul (b64_div (b64_add ymin ymax) (Finite False 2)) (b64_div (Finite False 1) fh),
           b64_mul (b64_sub xmax xmin) (b64_div (Finite False 1) fw),
           b64_mul (b64_sub ymax ymin) (b64_div (Finite False 1) fh))"
    using convert_coordinates_Inr [of w h binary64 fw fh xmin xmax ymin ymax] w0 h0 fw fh
    by (simp add: binary64_fields)
  then show ?thesis using x y wn hn by blast
qed

theorem convert_coordinates_unit_interval_witness:
  "\<exists>x y wn hn.
     convert_coordinates binary64 (100, 200)
       (Finite False 10, Finite False 30, Finite False 50, Finite False 150) = Inr (x, y, wn, hn)
   \<and> b64_between 0 1 x \<and> b64_between 0 1 y \<and> b64_between 0 1 wn \<and> b64_between 0 1 hn"
  using convert_coordinates_unit_interval [of 100 200 "Finite False 10" "Finite False 30"
      "Finite False 50" "Finite False 150"]
  by (simp add: is_b64_def b64_between_def b64_round_10 b64_round_30 b64_round_50 b64_round_150)

theorem convert_coordinates_unit_interval_counterexample:
  "is_b64 (Finite False (2 ^ 1023)) \<and> is_b64 (Finite False 0)
   \<and> b64_between 0 (of_int (2 ^ 1023)) (Finite False (2 ^ 1023))
   \<and> b64_le (Finite False (2 ^ 1023)) (Finite False (2 ^ 1023))
   \<and> b64_between 0 (of_int 1) (Finite False 0)
   \<and> b64_le (Finite False 0) (Finite False 0)
   \<and> convert_coordinates binary64 (2 ^ 1023, 1)
       (Finite False (2 ^ 1023), Finite False (2 ^ 1023), Finite False 0, Finite False 0) =
       Inr (Infinite False, Finite False 0, Finite False 0, Finite False 0)
   \<and> \<not> b64_between 0 1 (Infinite False)"
  using big_code b64_round_2_1023 b64_round_0 by (simp add: is_b64_def b64_between_def)

section \<open>The example annotation, evaluated\<close>

lemmas text_defs = find_elem_def find_text_def py_int_def py_float_def example_builtins_def
  dec_literal_def digit_val_def is_digit_def

lemma example_floats: "floats example_builtins = binary64"
  by (simp add: example_builtins_def)

lemma b64_of_real_16: "b64_of_real False 16 = Finite False 16"
  by (rule b64_of_real_eval [of 4]) (simp_all add: b64_eval)

lemma b64_of_real_32: "b64_of_real False 32 = Finite False 32"
  by (rule b64_of_real_eval [of 5]) (simp_all add: b64_eval)

lemma b64_of_real_48: "b64_of_real False 48 = Finite False 48"
  by (rule b64_of_real_eval [of 5]) (simp_all add: b64_eval)

lemma b64_of_real_64: "b64_of_real False 64 = Finite False 64"
  by (rule b64_of_real_eval [of 6]) (simp_all add: b64_eval)

lemma b64_of_real_128: "b64_of_real False 128 = Finite False 128"
  by (rule b64_of_real_eval [of 7]) (simp_all add: b64_eval)

lemma b64_of_real_192: "b64_of_real False 192 = Finite False 192"
  by (rule b64_of_real_eval [of 7]) (simp_all add: b64_eval)

lemma b64_of_real_256: "b64_of_real False 256 = Finite False 256"
  by (rule b64_of_real_eval [of 8]) (simp_all add: b64_eval)

lemma b64_of_real_1_128: "b64_of_real False (1 / 128) = Finite False (1 / 128)"
  by (rule b64_of_real_eval [of "- 7"]) (simp_all add: b64_eval)

lemma b64_of_real_1_256: "b64_of_real False (1 / 256) = Finite False (1 / 256)"
  by (rule b64_of_real_eval [of "- 8"]) (simp_all add: b64_eval)

lemma b64_of_real_1_4: "b64_of_real False (1 / 4) = Finite False (1 / 4)"
  by (rule b64_of_real_eval [of "- 2"]) (simp_all add: b64_eval)

lemma b64_of_int_128: "b64_of_int 128 = Some (Finite False 128)"
  using b64_of_real_128 by (simp add: b64_of_int_def)

lemma b64_of_int_256: "b64_of_int 256 = Some (Finite False 256)"
  using b64_of_real_256 by (simp add: b64_of_int_def)

lemma b64_of_int_0: "b64_of_int 0 = Some (Finite False 0)"
  by (simp add: b64_of_int_def b64_of_real_zero)

lemma ex_size_read: "read_size example_builtins ex_size = Inr (128, 256)"
  by (simp add: read_size_def ex_size_def text_defs)

lemma ex_bndbox_read:
  "read_box example_builtins ex_bndbox =
     Inr (Finite False 16, Finite False 48, Finite False 64, Finite False 192)"
  using b64_of_real_16 b64_of_real_48 b64_of_real_64 b64_of_real_192
  by (simp add: read_box_def corner_def ex_bndbox_def text_defs)

lemma ex_classes_index: "list_index ex_classes ''drug'' = Some (Suc 0)"
  by (simp add: ex_classes_def)

lemma ex_object_not_difficult: "is_difficult example_builtins ex_object = Inr False"
  by (simp add: is_difficult_def ex_object_def text_defs)

lemma ex_difficult_flag: "is_difficult example_builtins ex_difficult = Inr True"
  by (simp add: is_difficult_def ex_difficult_def text_defs)

lemma round_250000: "round_half_even (1 / 4 * 1000000) = 250000"
  by (simp add: round_half_even_def Let_def)

lemma round_500000: "round_half_even (1 / 2 * 1000000) = 500000"
  by (simp add: round_half_even_def Let_def)

lemma str_0: "str_of_nat 0 = ''0''"
  by (simp add: str_of_nat_small digit_char_def)

lemma str_1: "str_of_nat (Suc 0) = ''1''"
  by (simp add: str_of_nat_small digit_char_def)

lemma str_250000: "str_of_nat 250000 = ''250000''"
  by (simp add: str_of_nat_small str_of_nat_big digit_char_def)

lemma str_500000: "str_of_nat 500000 = ''500000''"
  by (simp add: str_of_nat_small str_of_nat_big digit_char_def)

lemma fmt6_quarter: "fmt6 (1 / 4) = ''0.250000''"
  unfolding fmt6_def Let_def round_250000 by (simp add: str_0 str_250000)

lemma fmt6_half: "fmt6 (1 / 2) = ''0.500000''"
  unfolding fmt6_def Let_def round_500000 by (simp add: str_0 str_500000)

lemma ex_format_quarter: "format_6f binary64 (Finite False (1 / 4)) = ''0.250000''"
  by (simp add: format_6f_def binary64_def fmt6_quarter)

lemma ex_format_half: "format_6f binary64 (Finite False (1 / 2)) = ''0.500000''"
  by (simp add: format_6f_def binary64_def fmt6_half)

lemma ex_format_nan: "format_6f binary64 NaN = ''nan''"
  by (simp add: format_6f_def binary64_def)

lemma ex_line:
  "yolo_line (floats example_builtins) (Suc 0)
     (Finite False (1 / 4), Finite False (1 / 2), Finite False (1 / 4), Finite False (1 / 2)) =
     ''1 0.250000 0.500000 0.250000 0.500000'' @ [CHR 0x0A]"
  by (simp add: example_floats yolo_line_def ex_format_quarter ex_format_half str_1)

lemma ex_dw: "b64_div (Finite False 1) (Finite False 128) = Finite False (1 / 128)"
  using b64_of_real_1_128 by simp

lemma ex_dh: "b64_div (Finite False 1) (Finite False 256) = Finite False (1 / 256)"
  using b64_of_real_1_256 by simp

lemma ex_x:
  "b64_mul (b64_div (b64_add (Finite False 16) (Finite False 48)) (Finite False 2))
     (Finite False (1 / 128)) = Finite False (1 / 4)"
proof -
  have "b64_add (Finite False 16) (Finite False 48) = Finite False 64"
    using b64_of_real_64 by simp
  moreover have "b64_div (Finite False 64) (Finite False 2) = Finite False 32"
    using b64_of_real_32 by simp
  moreover have "b64_mul (Finite False 32) (Finite False (1 / 128)) = Finite False (1 / 4)"
    using b64_of_real_1_4 by simp
  ultimately show ?thesis by simp
qed

lemma ex_y:
  "b64_mul (b64_div (b64_add (Finite False 64) (Finite False 192)) (Finite False 2))
     (Finite False (1 / 256)) = Finite False (1 / 2)"
proof -
  have "b64_add (Finite False 64) (Finite False 192) = Finite False 256"
    using b64_of_real_256 by simp
  moreover have "b64_div (Finite False 256) (Finite False 2) = Finite False 128"
    using b64_of_real_128 by simp
  moreover have "b64_mul (Finite False 128) (Finite False (1 / 256)) = Finite False (1 / 2)"
    using b64_of_real_1_2 by simp
  ultimately show ?thesis by simp
qed

lemma ex_w:
  "b64_mul (b64_sub (Finite False 48) (Finite False 16)) (Finite False (1 / 128)) =
     Finite False (1 / 4)"
proof -
  have "b64_sub (Finite False 48) (Finite False 16) = Finite False 32"
    using b64_of_real_32 by (simp add: b64_sub_def)
  moreover have "b64_mul (Finite False 32) (Finite False (1 / 128)) = Finite False (1 / 4)"
    using b64_of_real_1_4 by simp
  ultimately show ?thesis by simp
qed

lemma ex_h:
  "b64_mul (b64_sub (Finite False 192) (Finite False 64)) (Finite False (1 / 256)) =
     Finite False (1 / 2)"
proof -
  have "b64_sub (Finite False 192) (Finite False 64) = Finite False 128"
    using b64_of_real_128 by (simp add: b64_sub_def)
  moreover have "b64_mul (Finite False 128) (Finite False (1 / 256)) = Finite False (1 / 2)"
    using b64_of_real_1_2 by simp
  ultimately show ?thesis by simp
qed

lemma ex_size_floats:
  "(128::int) \<noteq> 0" "(256::int) \<noteq> 0"
  "float_of_int binary64 128 = Some (Finite False 128)"
  "float_of_int binary64 256 = Some (Finite False 256)"
  by (simp_all add: binary64_fields b64_of_int_128 b64_of_int_256)

lemma ex_transform:
  "convert_coordinates (floats example_builtins) (128, 256)
     (Finite False 16, Finite False 48, Finite False 64, Finite False 192) =
     Inr (Finite False (1 / 4), Finite False (1 / 2), Finite False (1 / 4), Finite False (1 / 2))"
  by (simp only: example_floats convert_coordinates_Inr [OF ex_size_floats] binary64_fields
      ex_dw ex_dh ex_x ex_y ex_w ex_h)

lemma ex_nan_bndbox_read:
  "read_box example_builtins ex_nan_bndbox =
     Inr (NaN, Finite False 48, Finite False 64, Finite False 192)"
  using b64_of_real_48 b64_of_real_64 b64_of_real_192
  by (simp add: read_box_def corner_def ex_nan_bndbox_def text_defs)

lemma ex_nan_transform:
  "convert_coordinates (floats example_builtins) (128, 256)
     (NaN, Finite False 48, Finite False 64, Finite False 192) =
     Inr (NaN, Finite False (1 / 2), NaN, Finite False (1 / 2))"
proof -
  have n: "b64_mul (b64_div (b64_add NaN (Finite False 48)) (Finite False 2))
      (Finite False (1 / 128)) = NaN"
    "b64_mul (b64_sub (Finite False 48) NaN) (Finite False (1 / 128)) = NaN"
    by (simp_all add: b64_sub_def)
  show ?thesis
    by (simp only: example_floats convert_coordinates_Inr [OF ex_size_floats] binary64_fields
        ex_dw ex_dh n ex_y ex_h)
qed

lemma ex_nan_line:
  "yolo_line (floats example_builtins) (Suc 0)
     (NaN, Finite False (1 / 2), NaN, Finite False (1 / 2)) =
     ''1 nan 0.500000 nan 0.500000'' @ [CHR 0x0A]"
  by (simp add: example_floats yolo_line_def ex_format_nan ex_format_half str_1)

lemma ex_nan_object_emits:
  "process_object example_builtins ex_classes (128, 256) ex_nan_object =
     Emit (''1 nan 0.500000 nan 0.500000'' @ [CHR 0x0A])"
proof -
  have d: "is_difficult example_builtins ex_nan_object = Inr False"
    by (simp add: is_difficult_def ex_nan_object_def text_defs)
  have n: "find_text ex_nan_object ''name'' = Inr (Some ''drug'')"
    by (simp add: ex_nan_object_def find_text_def find_elem_def)
  have b: "find_elem ex_nan_object ''bndbox'' = Some ex_nan_bndbox"
    by (simp add: ex_nan_object_def find_elem_def ex_nan_bndbox_def)
  show ?thesis
    by (simp add: process_object_def d n ex_classes_index b ex_nan_bndbox_read ex_nan_transform
        ex_nan_line ex_classes_def)
qed

lemma ex_object_name: "find_text ex_object ''name'' = Inr (Some ''drug'')"
  by (simp add: ex_object_def find_text_def find_elem_def)

lemma ex_object_bndbox: "find_elem ex_object ''bndbox'' = Some ex_bndbox"
  by (simp add: ex_object_def find_elem_def ex_bndbox_def)

lemma ex_object_emits:
  "process_object example_builtins ex_classes (128, 256) ex_object =
     Emit (''1 0.250000 0.500000 0.250000 0.500000'' @ [CHR 0x0A])"
  by (simp add: process_object_def ex_object_not_difficult ex_object_name ex_classes_index
      ex_object_bndbox ex_bndbox_read ex_transform ex_line ex_classes_def)

lemma ex_path: "output_path ''labels'' ''Annotations/a.xml'' = ''labels/a.txt''"
  by (simp add: output_path_def basename_def path_join_def)

lemma ex_root_size: "find_elem (ex_root objs) ''size'' = Some ex_size"
  by (simp add: ex_root_def find_elem_def ex_size_def)

lemma ex_zero_root_size: "find_elem (ex_zero_root objs) ''size'' = Some ex_zero_size"
  by (simp add: ex_zero_root_def find_elem_def ex_zero_size_def)

lemma ex_zero_size_read: "read_size example_builtins ex_zero_size = Inr (0, 0)"
  by (simp add: read_size_def ex_zero_size_def text_defs)

lemma ex_no_size: "find_elem ex_no_size_root ''size'' = None"
  by (simp add: ex_no_size_root_def find_elem_def ex_object_def)

lemma ex_iter_1: "iter (ex_root [a]) ''object'' = iter a ''object''"
  by (simp add: ex_root_def ex_size_def)

lemma ex_iter_2: "iter (ex_root [a, b]) ''object'' = iter a ''object'' @ iter b ''object''"
  by (simp add: ex_root_def ex_size_def)

lemma ex_iter_zero_0: "iter (ex_zero_root []) ''object'' = []"
  by (simp add: ex_zero_root_def ex_zero_size_def)

lemma ex_iter_zero_1: "iter (ex_zero_root [a]) ''object'' = iter a ''object''"
  by (simp add: ex_zero_root_def ex_zero_size_def)

lemma ex_iter_object: "iter ex_object ''object'' = [ex_object]"
  by (simp add: ex_object_def ex_bndbox_def)

lemma ex_iter_difficult: "iter ex_difficult ''object'' = [ex_difficult]"
  by (simp add: ex_difficult_def ex_bndbox_def)









lemma ex_difficult_elem:
  "find_elem ex_difficult ''difficult'' = Some (Element ''difficult'' (Some ''1'') [])"
  by (simp add: ex_difficult_def find_elem_def)

lemma ex_one: "py_int example_builtins (Some ''1'') = Inr 1"
  by (simp add: text_defs)

section \<open>The lines written, the objects skipped and the files counted\<close>

text \<open>
  Claim C3, as the code has it. A line is written for an object only after its
  difficulty flag, class name and box were read: the line is the position of
  the class name in the class list (its first occurrence) as a decimal
  numeral, then the four values of the transform, each printed with the format
  \<^verbatim>\<open>.6f\<close>, separated by single spaces and ended by a newline. A finite value
  is printed with six decimals; a value that is not finite is printed as
  \<^verbatim>\<open>nan\<close>, \<^verbatim>\<open>inf\<close> or \<^verbatim>\<open>-inf\<close>. The line is appended to the text of the
  output file and the loop goes on with the next object.
\<close>

theorem emitted_line_format:
  assumes "process_object cv classes image_size obj = Emit l"
  shows "(\<exists>cls cls_id xmlbox box x y w h.
           find_text obj ''name'' = Inr (Some cls)
         \<and> list_index classes cls = Some cls_id
         \<and> cls_id < length classes \<and> classes ! cls_id = cls \<and> cls \<notin> set (take cls_id classes)
         \<and> find_elem obj ''bndbox'' = Some xmlbox \<and> read_box cv xmlbox = Inr box
         \<and> convert_coordinates (floats cv) image_size box = Inr (x, y, w, h)
         \<and> l = str_of_nat cls_id @ '' '' @ format_6f (floats cv) x @ '' '' @ format_6f (floats cv) y @ '' ''
                @ format_6f (floats cv) w @ '' '' @ format_6f (floats cv) h @ [CHR 0x0A]
         \<and> list_all
              (\<lambda>a. case classify (floats cv) a of
                      NaN \<Rightarrow> format_6f (floats cv) a = ''nan''
                    | Infinite negative \<Rightarrow> format_6f (floats cv) a = (if negative then ''-inf'' else ''inf'')
                    | Finite negative m \<Rightarrow> six_decimals (format_6f (floats cv) a))
              [x, y, w, h])
       \<and> write_objects cv classes image_size (obj # objs) out =
           write_objects cv classes image_size objs (out @ l)"
proof -
  obtain cls cls_id xmlbox box bb where
    n: "find_text obj ''name'' = Inr (Some cls)" and i: "list_index classes cls = Some cls_id"
    and b: "find_elem obj ''bndbox'' = Some xmlbox" and r: "read_box cv xmlbox = Inr box"
    and c: "convert_coordinates (floats cv) image_size box = Inr bb" and l: "l = yolo_line (floats cv) cls_id bb"
    using process_object_EmitD [OF assms] by blast
  obtain x y w h where bb: "bb = (x, y, w, h)" by (cases bb) auto
  have f: "cls_id < length classes \<and> classes ! cls_id = cls \<and> cls \<notin> set (take cls_id classes)"
    using list_index_first [OF i] .
  have t: "l = str_of_nat cls_id @ '' '' @ format_6f (floats cv) x @ '' '' @ format_6f (floats cv) y @ '' ''
              @ format_6f (floats cv) w @ '' '' @ format_6f (floats cv) h @ [CHR 0x0A]"
    using l bb by (simp add: yolo_line_def)
  have s: "list_all
              (\<lambda>a. case classify (floats cv) a of
                      NaN \<Rightarrow> format_6f (floats cv) a = ''nan''
                    | Infinite negative \<Rightarrow> format_6f (floats cv) a = (if negative then ''-inf'' else ''inf'')
                    | Finite negative m \<Rightarrow> six_decimals (format_6f (floats cv) a))
              [x, y, w, h]"
    using format_6f_shape [of cv x] format_6f_shape [of cv y] format_6f_shape [of cv w]
      format_6f_shape [of cv h]
    by simp
  have e: "\<exists>cls cls_id xmlbox box x y w h.
           find_text obj ''name'' = Inr (Some cls)
         \<and> list_index classes cls = Some cls_id
         \<and> cls_id < length classes \<and> classes ! cls_id = cls \<and> cls \<notin> set (take cls_id classes)
         \<and> find_elem obj ''bndbox'' = Some xmlbox \<and> read_box cv xmlbox = Inr box
         \<and> convert_coordinates (floats cv) image_size box = Inr (x, y, w, h)
         \<and> l = str_of_nat cls_id @ '' '' @ format_6f (floats cv) x @ '' '' @ format_6f (floats cv) y @ '' ''
                @ format_6f (floats cv) w @ '' '' @ format_6f (floats cv) h @ [CHR 0x0A]
         \<and> list_all
              (\<lambda>a. case classify (floats cv) a of
                      NaN \<Rightarrow> format_6f (floats cv) a = ''nan''
                    | Infinite negative \<Rightarrow> format_6f (floats cv) a = (if negative then ''-inf'' else ''inf'')
                    | Finite negative m \<Rightarrow> six_decimals (format_6f (floats cv) a))
              [x, y, w, h]"
    using n i b r c bb f t s by blast
  have w: "write_objects cv classes image_size (obj # objs) out =
           write_objects cv classes image_size objs (out @ l)"
    using assms by simp
  show ?thesis using e w by (rule conjI)
qed

theorem emitted_line_format_witness:
  "process_object example_builtins ex_classes (128, 256) ex_object =
     Emit (''1 0.250000 0.500000 0.250000 0.500000'' @ [CHR 0x0A])
   \<and> ((\<exists>cls cls_id xmlbox box x y w h.
           find_text ex_object ''name'' = Inr (Some cls)
         \<and> list_index ex_classes cls = Some cls_id
         \<and> cls_id < length ex_classes \<and> ex_classes ! cls_id = cls
         \<and> cls \<notin> set (take cls_id ex_classes)
         \<and> find_elem ex_object ''bndbox'' = Some xmlbox
         \<and> read_box example_builtins xmlbox = Inr box
         \<and> convert_coordinates (floats example_builtins) (128, 256) box = Inr (x, y, w, h)
         \<and> ''1 0.250000 0.500000 0.250000 0.500000'' @ [CHR 0x0A] =
             str_of_nat cls_id @ '' '' @ format_6f (floats example_builtins) x @ '' ''
               @ format_6f (floats example_builtins) y @ '' '' @ format_6f (floats example_builtins) w @ '' ''
               @ format_6f (floats example_builtins) h @ [CHR 0x0A]
         \<and> list_all
              (\<lambda>a. case classify (floats example_builtins) a of
                      NaN \<Rightarrow> format_6f (floats example_builtins) a = ''nan''
                    | Infinite negative \<Rightarrow>
                        format_6f (floats example_builtins) a = (if negative then ''-inf'' else ''inf'')
                    | Finite negative m \<Rightarrow> six_decimals (format_6f (floats example_builtins) a))
              [x, y, w, h])
      \<and> write_objects example_builtins ex_classes (128, 256) (ex_object # []) [] =
          write_objects example_builtins ex_classes (128, 256) []
            ([] @ (''1 0.250000 0.500000 0.250000 0.500000'' @ [CHR 0x0A])))"
  using ex_object_emits emitted_line_format [OF ex_object_emits, of "[]" "[]"] by (rule conjI)

theorem emitted_line_counterexample:
  "convert_annotation example_builtins ''labels'' ex_classes
     (''Annotations/a.xml'', Some (ex_root [ex_nan_object])) no_files =
     (True, no_files(''labels/a.txt'' \<mapsto> ''1 nan 0.500000 nan 0.500000'' @ [CHR 0x0A]))
   \<and> \<not> six_decimals ''nan''"
proof -
  have i: "iter (ex_root [ex_nan_object]) ''object'' = [ex_nan_object]"
    by (simp add: ex_iter_1 ex_nan_object_def ex_nan_bndbox_def)
  have "convert_annotation example_builtins ''labels'' ex_classes
     (''Annotations/a.xml'', Some (ex_root [ex_nan_object])) no_files =
     (True, no_files(''labels/a.txt'' \<mapsto> ''1 nan 0.500000 nan 0.500000'' @ [CHR 0x0A]))"
    by (simp add: convert_annotation_objects [OF ex_root_size ex_size_read] i
        ex_nan_object_emits ex_path)
  then show ?thesis using not_six_decimals_nan by (rule conjI)
qed



text \<open>
  Claim C5. An object whose difficulty flag reads as the integer 1 is
  skipped: it gives no line, and the loop over the objects ends with the
  same text and the same outcome as if the object were not there, so the
  file written is the one the other objects give.
\<close>

theorem difficult_object_skipped:
  assumes "find_elem obj ''difficult'' = Some d" and "py_int cv (text_of d) = Inr 1"
  shows "process_object cv classes image_size obj = Skip
       \<and> write_objects cv classes image_size (pre @ obj # post) out =
           write_objects cv classes image_size (pre @ post) out
       \<and> (find_elem r ''size'' = Some s \<and> read_size cv s = Inr image_size
            \<and> iter r ''object'' = pre @ obj # post \<longrightarrow>
          convert_annotation cv output_dir classes (p, Some r) fs =
            (fst (write_objects cv classes image_size (pre @ post) []) = None,
             fs(output_path output_dir p \<mapsto>
                snd (write_objects cv classes image_size (pre @ post) []))))"
proof -
  have k: "process_object cv classes image_size obj = Skip"
    using is_difficult_flag_one [OF assms] by (rule process_object_difficult)
  have w: "\<And>out. write_objects cv classes image_size (pre @ obj # post) out =
             write_objects cv classes image_size (pre @ post) out"
    using k by (rule write_objects_skip)
  show ?thesis
    using k w by (auto simp: convert_annotation_objects)
qed

theorem difficult_object_skipped_witness:
  "process_object example_builtins ex_classes (128, 256) ex_difficult = Skip
   \<and> convert_annotation example_builtins ''labels'' ex_classes
       (''Annotations/a.xml'', Some (ex_root [ex_difficult, ex_object])) no_files =
       (True, no_files(''labels/a.txt'' \<mapsto>
          ''1 0.250000 0.500000 0.250000 0.500000'' @ [CHR 0x0A]))"
  using difficult_object_skipped [OF ex_difficult_elem, of example_builtins ex_classes
      "(128, 256)" "[]" "[ex_object]" "[]" "ex_root [ex_difficult, ex_object]" ex_size
      "''labels''" "''Annotations/a.xml''" no_files]
  by (simp add: ex_one ex_root_size ex_size_read ex_iter_2 ex_iter_difficult ex_iter_object
      ex_object_emits ex_path)




section \<open>Image size, output files and objects without a name\<close>

text \<open>
  Claim C7, as the code has it. The size record is read before any object:
  a width or height that is missing or does not read as an integer makes the
  conversion return false. A width or height of zero is read like any other
  integer; the division by it raises when the first object reaches the
  transform, so no line is ever written from it, the file stays empty, and
  the conversion returns true exactly when every object was skipped before
  the transform. The transform gives values whenever both dimensions are
  nonzero, negative ones included, and convert to floats.
\<close>

theorem zero_dimension_no_line:
  assumes "find_elem r ''size'' = Some s"
  shows "(read_size cv s = Inl e \<longrightarrow>
            fst (convert_annotation cv output_dir classes (p, Some r) fs) = False)
       \<and> (find_elem s ''width'' = None \<or> find_elem s ''height'' = None \<longrightarrow>
            (\<exists>e'. read_size cv s = Inl e'))
       \<and> (read_size cv s = Inr (w, h) \<and> (w = 0 \<or> h = 0) \<longrightarrow>
            process_object cv classes (w, h) obj \<noteq> Emit l
          \<and> snd (convert_annotation cv output_dir classes (p, Some r) fs) =
              fs(output_path output_dir p \<mapsto> [])
          \<and> fst (convert_annotation cv output_dir classes (p, Some r) fs) =
              list_all (\<lambda>obj. process_object cv classes (w, h) obj = Skip) (iter r ''object''))
       \<and> (w \<noteq> 0 \<and> h \<noteq> 0 \<and> float_of_int (floats cv) w = Some fw \<and> float_of_int (floats cv) h = Some fh \<longrightarrow>
            (\<exists>bb. convert_coordinates (floats cv) (w, h) box = Inr bb))"
proof -
  have a: "fst (convert_annotation cv output_dir classes (p, Some r) fs) = False"
    if "read_size cv s = Inl e"
    using convert_annotation_bad_size [OF assms that] by simp
  have b: "\<exists>e'. read_size cv s = Inl e'"
    if "find_elem s ''width'' = None \<or> find_elem s ''height'' = None"
    using that by (auto simp: read_size_def find_text_def split: sum.splits)
  have n: "process_object cv classes (w, h) obj \<noteq> Emit l" if z: "w = 0 \<or> h = 0" for obj l
  proof
    assume "process_object cv classes (w, h) obj = Emit l"
    then obtain box bb where "convert_coordinates (floats cv) (w, h) box = Inr bb"
      using process_object_EmitD by blast
    moreover obtain e where "convert_coordinates (floats cv) (w, h) box = Inl e"
      using convert_coordinates_zero [OF z] by blast
    ultimately show False by simp
  qed
  have c: "snd (convert_annotation cv output_dir classes (p, Some r) fs) =
              fs(output_path output_dir p \<mapsto> [])"
    if "read_size cv s = Inr (w, h)" and "w = 0 \<or> h = 0"
    using convert_annotation_objects [OF assms that(1)] n [OF that(2)]
    by (simp add: write_objects_no_emit)
  have d: "fst (convert_annotation cv output_dir classes (p, Some r) fs) =
              list_all (\<lambda>obj. process_object cv classes (w, h) obj = Skip) (iter r ''object'')"
    if "read_size cv s = Inr (w, h)" and "w = 0 \<or> h = 0"
    using convert_annotation_objects [OF assms that(1)] n [OF that(2)]
    by (simp add: write_objects_fst_no_emit)
  have f: "\<exists>bb. convert_coordinates (floats cv) (w, h) box = Inr bb"
    if "w \<noteq> 0" and "h \<noteq> 0" and "float_of_int (floats cv) w = Some fw" and "float_of_int (floats cv) h = Some fh"
    using that by (rule convert_coordinates_values)
  show ?thesis using a b n c d f by blast
qed

theorem zero_dimension_no_line_witness:
  "convert_annotation example_builtins ''labels'' ex_classes
     (''Annotations/a.xml'', Some (ex_zero_root [ex_object])) no_files =
     (False, no_files(''labels/a.txt'' \<mapsto> []))"
proof -
  have "\<exists>e. convert_coordinates (floats example_builtins) (0, 0)
      (Finite False 16, Finite False 48, Finite False 64, Finite False 192) = Inl e"
    by (rule convert_coordinates_zero) simp
  then have k: "process_object example_builtins ex_classes (0, 0) ex_object \<noteq> Skip"
    by (auto simp: process_object_def ex_object_not_difficult ex_object_name ex_classes_index
        ex_object_bndbox ex_bndbox_read ex_classes_def)
  show ?thesis
    using zero_dimension_no_line [where cv = example_builtins
        and r = "ex_zero_root [ex_object]" and s = ex_zero_size
        and output_dir = "''labels''" and classes = ex_classes and p = "''Annotations/a.xml''"
        and fs = no_files and w = 0 and h = 0, OF ex_zero_root_size] k
    by (simp add: ex_zero_size_read ex_iter_zero_1 ex_iter_object ex_path prod_eq_iff)
qed

theorem zero_dimension_counterexample:
  "find_elem (ex_zero_root []) ''size'' = Some ex_zero_size
   \<and> read_size example_builtins ex_zero_size = Inr (0, 0)
   \<and> fst (convert_annotation example_builtins ''labels'' ex_classes
        (''Annotations/a.xml'', Some (ex_zero_root [])) no_files) = True"
  by (simp add: ex_zero_root_size ex_zero_size_read convert_annotation_objects ex_iter_zero_0)

text \<open>
  Claim C8, as the code has it. The output file is opened for writing right
  after the input was parsed, before the size record is looked for. So an
  input that does not parse leaves the output files untouched, and every
  input that parses gets its output file, named after the stem of the input
  with the extension txt, whether the conversion then succeeds or not: the
  file is empty when the size record is absent (the conversion returns
  false) and when the conversion succeeds with every object skipped. No
  other output file changes.
\<close>

theorem output_file_written:
  "convert_annotation cv output_dir classes (p, None) fs = (False, fs)
   \<and> (\<exists>b content. convert_annotation cv output_dir classes (p, Some r) fs =
         (b, fs(output_path output_dir p \<mapsto> content)))
   \<and> (find_elem r ''size'' = None \<longrightarrow>
        convert_annotation cv output_dir classes (p, Some r) fs =
          (False, fs(output_path output_dir p \<mapsto> [])))
   \<and> (find_elem r ''size'' = Some s \<and> read_size cv s = Inr image_size
        \<and> list_all (\<lambda>obj. process_object cv classes image_size obj = Skip) (iter r ''object'')
        \<longrightarrow> convert_annotation cv output_dir classes (p, Some r) fs =
          (True, fs(output_path output_dir p \<mapsto> [])))
   \<and> (CHR ''/'' \<notin> set stem \<and> CHR ''/'' \<notin> set ext \<and> length ext = 4
        \<and> output_dir \<noteq> [] \<and> last output_dir \<noteq> CHR ''/'' \<longrightarrow>
        output_path output_dir (dir @ ''/'' @ stem @ ext) = output_dir @ ''/'' @ stem @ ''.txt'')"
proof -
  have a: "convert_annotation cv output_dir classes (p, None) fs = (False, fs)"
    by (rule convert_annotation_None)
  have b: "\<exists>b content. convert_annotation cv output_dir classes (p, Some r) fs =
         (b, fs(output_path output_dir p \<mapsto> content))"
  proof (cases "find_elem r ''size''")
    case None
    then show ?thesis using convert_annotation_no_size by blast
  next
    case (Some s')
    show ?thesis
    proof (cases "read_size cv s'")
      case (Inl e)
      then show ?thesis using convert_annotation_bad_size [OF Some] by blast
    next
      case (Inr sz)
      then show ?thesis using convert_annotation_objects [OF Some] by blast
    qed
  qed
  have c: "convert_annotation cv output_dir classes (p, Some r) fs =
          (False, fs(output_path output_dir p \<mapsto> []))" if "find_elem r ''size'' = None"
    using that by (rule convert_annotation_no_size)
  have d: "convert_annotation cv output_dir classes (p, Some r) fs =
          (True, fs(output_path output_dir p \<mapsto> []))"
    if "find_elem r ''size'' = Some s" and "read_size cv s = Inr image_size"
      and "list_all (\<lambda>obj. process_object cv classes image_size obj = Skip) (iter r ''object'')"
  proof -
    have "write_objects cv classes image_size (iter r ''object'') [] = (None, [])"
      using that(3) by (intro write_objects_all_skip) (simp add: list_all_iff)
    then show ?thesis using convert_annotation_objects [OF that(1,2)] by simp
  qed
  have e: "output_path output_dir (dir @ ''/'' @ stem @ ext) = output_dir @ ''/'' @ stem @ ''.txt''"
    if "CHR ''/'' \<notin> set stem" and "CHR ''/'' \<notin> set ext" and "length ext = 4"
      and "output_dir \<noteq> []" and "last output_dir \<noteq> CHR ''/''"
    using that by (rule output_path_stem)
  show ?thesis using a b c d e by blast
qed

theorem output_file_written_witness:
  "convert_annotation example_builtins ''labels'' ex_classes
     (''Annotations/a.xml'', Some (ex_root [ex_difficult])) no_files =
     (True, no_files(''labels/a.txt'' \<mapsto> []))"
proof -
  have "process_object example_builtins ex_classes (128, 256) ex_difficult = Skip"
    using ex_difficult_flag by (rule process_object_difficult)
  then show ?thesis
    using output_file_written [of example_builtins "''labels''" ex_classes "''Annotations/a.xml''"
        no_files "ex_root [ex_difficult]" ex_size "(128, 256)" "''a''" "''.xml''" "''Annotations''"]
    by (simp add: ex_root_size ex_size_read ex_iter_1 ex_iter_difficult ex_path)
qed

theorem output_file_counterexample:
  "find_elem ex_no_size_root ''size'' = None
   \<and> convert_annotation example_builtins ''labels'' ex_classes
       (''Annotations/a.xml'', Some ex_no_size_root) no_files =
       (False, no_files(''labels/a.txt'' \<mapsto> []))
   \<and> (no_files(''labels/a.txt'' \<mapsto> [])) ''labels/a.txt'' \<noteq> None"
  by (simp add: ex_no_size convert_annotation_no_size ex_path)




end
